theory Spec2Isabelle
  imports Main "HOL-Library.Product_Lexorder" "HOL-Library.Multiset"
begin

section \<open>Values of the Python program\<close>

text \<open>
  The program is \<^verbatim>\<open>fetch_policy_emails.py\<close>. A Python \<^verbatim>\<open>str\<close> is a
  sequence of code points; here a string is a \<^typ>\<open>string\<close> whose characters are the code
  points below 256, and the character classes of \<^verbatim>\<open>str.isspace\<close>,
  \<^verbatim>\<open>str.isalnum\<close>, \<^verbatim>\<open>str.lower\<close> and \<^verbatim>\<open>str.splitlines\<close>
  are the ones Python has on that range.

  A naive \<^verbatim>\<open>datetime\<close> is the tuple (year, month, day, hour, minute, second,
  microsecond); Python compares two naive datetimes as these tuples, lexicographically, which is
  the order of \<^verbatim>\<open>HOL-Library.Product_Lexorder\<close> on the product type.
\<close>

type_synonym naive = "nat \<times> nat \<times> nat \<times> nat \<times> nat \<times> nat \<times> nat"

text \<open>
  A \<^verbatim>\<open>datetime\<close> has its wall-clock fields and, when it is aware, the offset of its
  zone from UTC, in seconds.
\<close>

record datetime =
  wall :: naive
  tzinfo :: "int option"

datatype py_error = AttributeError | ComError | OSError | ValueError | IndexError

text \<open>
  An attribute of a COM object read with \<^verbatim>\<open>getattr(obj, name, default)\<close>: it is
  missing (the default is returned), reading it raises (a COM error, which \<^verbatim>\<open>getattr\<close>
  does not catch), or it has a value.
\<close>

datatype 'a attr = Missing | Failing | Has 'a

definition getattr_d :: "'a attr \<Rightarrow> 'a \<Rightarrow> py_error + 'a" where
  "getattr_d a d = (case a of Missing \<Rightarrow> Inr d | Failing \<Rightarrow> Inl ComError | Has v \<Rightarrow> Inr v)"

definition bnd :: "'e + 'a \<Rightarrow> ('a \<Rightarrow> 'e + 'b) \<Rightarrow> 'e + 'b" where
  "bnd m f = (case m of Inl e \<Rightarrow> Inl e | Inr x \<Rightarrow> f x)"

text \<open>
  What the program takes from the platform and the standard library: the local time zone
  (\<^verbatim>\<open>datetime.astimezone()\<close>, which may raise), the wall clock, \<^verbatim>\<open>strftime\<close>
  (which may raise), \<^verbatim>\<open>email.utils.parsedate_to_datetime\<close> (which returns a datetime,
  returns \<^verbatim>\<open>None\<close> or raises),
  whether \<^verbatim>\<open>json.loads\<close> accepts a text, whether a file can be written, path joining
  and the path separators of \<^verbatim>\<open>os.path\<close>.
\<close>

datatype 'a call = Raises | Returns 'a

record platform =
  astimezone_local :: "datetime \<Rightarrow> naive option"
  now :: naive
  strftime :: "string \<Rightarrow> naive \<Rightarrow> string option"
  parsedate_to_datetime :: "string \<Rightarrow> datetime option call"
  json_loads_ok :: "string \<Rightarrow> bool"
  can_write :: "string \<Rightarrow> bool"
  joinpath :: "string \<Rightarrow> string \<Rightarrow> string"
  path_seps :: "char list"

subsection \<open>\<^verbatim>\<open>to_naive_local\<close>\<close>

definition to_naive_local :: "platform \<Rightarrow> datetime option \<Rightarrow> naive option" where
  "to_naive_local env dt =
     (case dt of
        None \<Rightarrow> None
      | Some d \<Rightarrow>
          (if tzinfo d = None then Some (wall d)
           else (case astimezone_local env d of
                   Some n \<Rightarrow> Some n
                 | None \<Rightarrow> Some (wall d))))"

section \<open>The payload aggregator (\<^verbatim>\<open>main\<close>, after the fetch)\<close>

text \<open>
  A saved email is the dict \<^verbatim>\<open>main\<close> appends to \<^verbatim>\<open>saved_emails\<close>. The keys the
  aggregator reads with \<^verbatim>\<open>rec.get\<close> are options: a missing key and a \<^verbatim>\<open>None\<close>
  value both read as \<^verbatim>\<open>None\<close>.
\<close>

record saved_email =
  txt_path :: string
  attachments :: "string list"
  received :: "naive option"
  message_id :: "string option"
  date_source :: string
  raw_received :: "naive option"

text \<open>\<^verbatim>\<open>if not mid\<close>: \<^verbatim>\<open>None\<close> and the empty string are falsy.\<close>

definition falsy :: "string option \<Rightarrow> bool" where
  "falsy mid = (case mid of None \<Rightarrow> True | Some s \<Rightarrow> s = [])"

text \<open>
  The dedupe loop: \<^verbatim>\<open>unique\<close> is the dict of identities seen so far,
  \<^verbatim>\<open>deduped\<close> the list built so far.
\<close>

fun dedupe_loop :: "(string \<rightharpoonup> bool) \<Rightarrow> saved_email list \<Rightarrow> saved_email list \<Rightarrow> saved_email list" where
  "dedupe_loop unique deduped [] = deduped"
| "dedupe_loop unique deduped (rec # rest) =
     (if falsy (message_id rec) then dedupe_loop unique (deduped @ [rec]) rest
      else if the (message_id rec) \<in> dom unique then dedupe_loop unique deduped rest
      else dedupe_loop (unique(the (message_id rec) \<mapsto> True)) (deduped @ [rec]) rest)"

definition dedupe :: "saved_email list \<Rightarrow> saved_email list" where
  "dedupe saved_emails = dedupe_loop Map.empty [] saved_emails"

text \<open>
  \<^verbatim>\<open>saved_emails.sort(key=lambda r: r.get('received') or since)\<close>. A datetime is
  always truthy, so the key is \<^verbatim>\<open>since\<close> exactly when the value is \<^verbatim>\<open>None\<close>.
  \<^verbatim>\<open>list.sort\<close> is a stable sort, as \<^const>\<open>sort_key\<close> is.
\<close>

definition received_key :: "naive \<Rightarrow> saved_email \<Rightarrow> naive" where
  "received_key since r = (case received r of None \<Rightarrow> since | Some d \<Rightarrow> d)"

definition sort_by_received :: "naive \<Rightarrow> saved_email list \<Rightarrow> saved_email list" where
  "sort_by_received since saved_emails = sort_key (received_key since) saved_emails"

text \<open>The date range label: \<^verbatim>\<open>min\<close> and \<^verbatim>\<open>max\<close> of a non-empty list.\<close>

fun py_min :: "naive list \<Rightarrow> py_error + naive" where
  "py_min [] = Inl ValueError"
| "py_min (d # ds) = Inr (fold (\<lambda>x m. if x < m then x else m) ds d)"

fun py_max :: "naive list \<Rightarrow> py_error + naive" where
  "py_max [] = Inl ValueError"
| "py_max (d # ds) = Inr (fold (\<lambda>x m. if m < x then x else m) ds d)"

definition received_dates :: "saved_email list \<Rightarrow> naive list" where
  "received_dates saved_emails = List.map_filter received saved_emails"

definition period_bounds :: "naive \<Rightarrow> naive \<Rightarrow> saved_email list \<Rightarrow> py_error + naive \<times> naive" where
  "period_bounds since until saved_emails =
     (let dates = received_dates saved_emails in
      if dates \<noteq> [] then
        bnd (py_min dates) (\<lambda>lo. bnd (py_max dates) (\<lambda>hi.
          Inr (max lo since, min hi until)))
      else Inr (since, until))"

definition period_label :: "platform \<Rightarrow> naive \<Rightarrow> naive \<Rightarrow> saved_email list \<Rightarrow> py_error + string \<times> string" where
  "period_label env since until saved_emails =
     bnd (period_bounds since until saved_emails) (\<lambda>(start_dt, end_dt).
       (case strftime env ''%y%m%d'' start_dt of
          None \<Rightarrow> Inl ValueError
        | Some start \<Rightarrow>
            (case strftime env ''%y%m%d'' end_dt of
               None \<Rightarrow> Inl ValueError
             | Some end' \<Rightarrow> Inr (start, end'))))"


section \<open>SHA-256\<close>

text \<open>
  \<^verbatim>\<open>hashlib.sha256(key.encode('utf-8')).hexdigest()\<close>: SHA-256 as FIPS 180-4 defines it,
  on 32-bit words written as lists of 32 bits, the least significant bit first. The functions
  take their arguments by pattern, so that they compute on concrete inputs only.
\<close>

type_synonym bits = "bool list"

fun bxor :: "bits \<Rightarrow> bits \<Rightarrow> bits" where
  "bxor (a # as) (b # bs) = (a \<noteq> b) # bxor as bs"
| "bxor _ _ = []"

fun band :: "bits \<Rightarrow> bits \<Rightarrow> bits" where
  "band (a # as) (b # bs) = (a \<and> b) # band as bs"
| "band _ _ = []"

fun badd :: "bool \<Rightarrow> bits \<Rightarrow> bits \<Rightarrow> bits" where
  "badd c (a # as) (b # bs) = ((a \<noteq> b) \<noteq> c) # badd ((a \<and> b) \<or> (c \<and> (a \<or> b))) as bs"
| "badd c _ _ = []"

fun rotr :: "nat \<Rightarrow> bits \<Rightarrow> bits" where
  "rotr n x = drop n x @ take n x"

fun shr :: "nat \<Rightarrow> bits \<Rightarrow> bits" where
  "shr n x = drop n x @ replicate n False"

fun ssig0 :: "bits \<Rightarrow> bits" where "ssig0 x = bxor (bxor (rotr 7 x) (rotr 18 x)) (shr 3 x)"
fun ssig1 :: "bits \<Rightarrow> bits" where "ssig1 x = bxor (bxor (rotr 17 x) (rotr 19 x)) (shr 10 x)"
fun bsig0 :: "bits \<Rightarrow> bits" where "bsig0 x = bxor (bxor (rotr 2 x) (rotr 13 x)) (rotr 22 x)"
fun bsig1 :: "bits \<Rightarrow> bits" where "bsig1 x = bxor (bxor (rotr 6 x) (rotr 11 x)) (rotr 25 x)"
fun ch :: "bits \<Rightarrow> bits \<Rightarrow> bits \<Rightarrow> bits" where "ch x y z = bxor (band x y) (band (map Not x) z)"
fun maj :: "bits \<Rightarrow> bits \<Rightarrow> bits \<Rightarrow> bits" where "maj x y z = bxor (bxor (band x y) (band x z)) (band y z)"

fun plus32 :: "bits \<Rightarrow> bits \<Rightarrow> bits" where "plus32 x y = badd False x y"

fun char_bits :: "char \<Rightarrow> bits" where
  "char_bits (Char b0 b1 b2 b3 b4 b5 b6 b7) = [b0, b1, b2, b3, b4, b5, b6, b7]"

text \<open>A hexadecimal digit as four bits.\<close>

fun hexbits :: "char \<Rightarrow> bits" where
  "hexbits c = (case char_bits c of
      [b0, b1, b2, b3, b4, b5, b6, b7] \<Rightarrow>
        if b6 then badd False [b0, b1, b2, b3] [True, False, False, True] else [b0, b1, b2, b3]
    | _ \<Rightarrow> [])"

fun of_hex :: "string \<Rightarrow> bits" where
  "of_hex s = concat (map hexbits (rev s))"

definition sha_K :: "bits list" where
  "sha_K = map of_hex [
  ''428a2f98'', ''71374491'', ''b5c0fbcf'', ''e9b5dba5'', ''3956c25b'', ''59f111f1'', ''923f82a4'', ''ab1c5ed5'',
  ''d807aa98'', ''12835b01'', ''243185be'', ''550c7dc3'', ''72be5d74'', ''80deb1fe'', ''9bdc06a7'', ''c19bf174'',
  ''e49b69c1'', ''efbe4786'', ''0fc19dc6'', ''240ca1cc'', ''2de92c6f'', ''4a7484aa'', ''5cb0a9dc'', ''76f988da'',
  ''983e5152'', ''a831c66d'', ''b00327c8'', ''bf597fc7'', ''c6e00bf3'', ''d5a79147'', ''06ca6351'', ''14292967'',
  ''27b70a85'', ''2e1b2138'', ''4d2c6dfc'', ''53380d13'', ''650a7354'', ''766a0abb'', ''81c2c92e'', ''92722c85'',
  ''a2bfe8a1'', ''a81a664b'', ''c24b8b70'', ''c76c51a3'', ''d192e819'', ''d6990624'', ''f40e3585'', ''106aa070'',
  ''19a4c116'', ''1e376c08'', ''2748774c'', ''34b0bcb5'', ''391c0cb3'', ''4ed8aa4a'', ''5b9cca4f'', ''682e6ff3'',
  ''748f82ee'', ''78a5636f'', ''84c87814'', ''8cc70208'', ''90befffa'', ''a4506ceb'', ''bef9a3f7'', ''c67178f2'']"

fun schedule :: "nat \<Rightarrow> bits list \<Rightarrow> bits list" where
  "schedule 0 ws = ws"
| "schedule (Suc n) ws =
     schedule n (plus32 (plus32 (ssig1 (ws ! 1)) (ws ! 6)) (plus32 (ssig0 (ws ! 14)) (ws ! 15)) # ws)"

type_synonym sha_state = "bits \<times> bits \<times> bits \<times> bits \<times> bits \<times> bits \<times> bits \<times> bits"

fun shift_in :: "bits \<Rightarrow> bits \<Rightarrow> sha_state \<Rightarrow> sha_state" where
  "shift_in t1 t2 (a, b, c, d, e, f, g, h) = (plus32 t1 t2, a, b, c, plus32 d t1, e, f, g)"

fun round_step :: "bits \<Rightarrow> bits \<Rightarrow> sha_state \<Rightarrow> sha_state" where
  "round_step k w (a, b, c, d, e, f, g, h) =
     shift_in (plus32 (plus32 (plus32 h (bsig1 e)) (plus32 (ch e f g) k)) w)
              (plus32 (bsig0 a) (maj a b c)) (a, b, c, d, e, f, g, h)"

fun rounds :: "bits list \<Rightarrow> bits list \<Rightarrow> sha_state \<Rightarrow> sha_state" where
  "rounds (k # ks) (w # ws) st = rounds ks ws (round_step k w st)"
| "rounds _ _ st = st"

fun be32 :: "char list \<Rightarrow> bits" where
  "be32 [a, b, c, d] = char_bits d @ char_bits c @ char_bits b @ char_bits a"
| "be32 _ = []"

fun chunk :: "nat \<Rightarrow> nat \<Rightarrow> 'a list \<Rightarrow> 'a list list" where
  "chunk 0 k xs = []"
| "chunk (Suc n) k xs = take k xs # chunk n k (drop k xs)"

fun add_state :: "sha_state \<Rightarrow> sha_state \<Rightarrow> sha_state" where
  "add_state (a, b, c, d, e, f, g, h) (a', b', c', d', e', f', g', h') =
     (plus32 a a', plus32 b b', plus32 c c', plus32 d d', plus32 e e', plus32 f f', plus32 g g', plus32 h h')"

text \<open>The compression of one block of 64 bytes.\<close>

fun compress :: "sha_state \<Rightarrow> char list \<Rightarrow> sha_state" where
  "compress hs blk = add_state hs (rounds sha_K (rev (schedule 48 (rev (map be32 (chunk 16 4 blk))))) hs)"

definition sha_H0 :: sha_state where
  "sha_H0 = (of_hex ''6a09e667'', of_hex ''bb67ae85'', of_hex ''3c6ef372'', of_hex ''a54ff53a'',
             of_hex ''510e527f'', of_hex ''9b05688c'', of_hex ''1f83d9ab'', of_hex ''5be0cd19'')"

text \<open>
  The bytes are fed one at a time: \<^verbatim>\<open>buf\<close> is the block being filled, reversed, and
  \<^verbatim>\<open>missing\<close> the number of bytes it still lacks. At the end of the input the state,
  the bytes of the unfinished block and their missing number are returned.
\<close>

fun feed :: "sha_state \<Rightarrow> char list \<Rightarrow> nat \<Rightarrow> char list \<Rightarrow> sha_state \<times> char list \<times> nat" where
  "feed hs buf missing [] = (hs, rev buf, missing)"
| "feed hs buf 0 (c # cs) = (hs, rev buf, 0)"
| "feed hs buf (Suc 0) (c # cs) = feed (compress hs (rev (c # buf))) [] 64 cs"
| "feed hs buf (Suc (Suc k)) (c # cs) = feed hs (c # buf) (Suc k) cs"

text \<open>The length of the message in bits, as 64 bits: a counter of the bytes, times eight.\<close>

fun inc :: "bits \<Rightarrow> bits" where
  "inc [] = []"
| "inc (False # bs) = True # bs"
| "inc (True # bs) = False # inc bs"

fun byte_count :: "char list \<Rightarrow> bits \<Rightarrow> bits" where
  "byte_count [] n = n"
| "byte_count (c # cs) n = byte_count cs (inc n)"

fun bit_length :: "bits \<Rightarrow> bits" where
  "bit_length n = take 64 (False # False # False # n)"

fun bits_char :: "bits \<Rightarrow> char" where
  "bits_char [b0, b1, b2, b3, b4, b5, b6, b7] = Char b0 b1 b2 b3 b4 b5 b6 b7"
| "bits_char _ = CHR 0x00"

fun length_bytes :: "bits \<Rightarrow> char list" where
  "length_bytes n = rev (map bits_char (chunk 8 8 (bit_length n)))"

text \<open>
  The padding: the byte 0x80, zero bytes up to 56 modulo 64, and the length on 8 bytes; it fits
  the unfinished block when that lacks at least 9 bytes, and takes a second block otherwise.
\<close>

fun finish :: "sha_state \<times> char list \<times> nat \<Rightarrow> bits \<Rightarrow> sha_state" where
  "finish (hs, rest, missing) n =
     (if 9 \<le> missing
      then compress hs (rest @ CHR 0x80 # replicate (missing - 9) (CHR 0x00) @ length_bytes n)
      else compress
             (compress hs (rest @ CHR 0x80 # replicate (missing - 1) (CHR 0x00)))
             (replicate 56 (CHR 0x00) @ length_bytes n))"

fun sha256 :: "char list \<Rightarrow> sha_state" where
  "sha256 m = finish (feed sha_H0 [] 64 m) (byte_count m (replicate 61 False))"

fun hexdigit :: "bits \<Rightarrow> char" where
  "hexdigit [b0, b1, b2, b3] =
     (''0123456789abcdef'') ! ((if b0 then 1 else 0) + (if b1 then 2 else 0) + (if b2 then 4 else 0) + (if b3 then 8 else 0))"
| "hexdigit _ = CHR ''?''"

fun hex32 :: "bits \<Rightarrow> string" where
  "hex32 w = rev (map hexdigit (chunk 8 4 w))"

fun hex_state :: "sha_state \<Rightarrow> string" where
  "hex_state (a, b, c, d, e, f, g, h) =
     hex32 a @ hex32 b @ hex32 c @ hex32 d @ hex32 e @ hex32 f @ hex32 g @ hex32 h"

fun hexdigest :: "char list \<Rightarrow> string" where
  "hexdigest m = hex_state (sha256 m)"

text \<open>
  The UTF-8 encoding of a string of code points below 256: one byte below 128, two bytes
  from 128 on.
\<close>

fun utf8_char :: "char \<Rightarrow> char list" where
  "utf8_char (Char b0 b1 b2 b3 b4 b5 b6 b7) =
     (if b7 then [Char b6 True False False False False True True,
                  Char b0 b1 b2 b3 b4 b5 False True]
      else [Char b0 b1 b2 b3 b4 b5 b6 b7])"

fun utf8_encode :: "string \<Rightarrow> char list" where
  "utf8_encode [] = []"
| "utf8_encode (c # cs) = utf8_char c @ utf8_encode cs"

fun sha256_hexdigest :: "string \<Rightarrow> string" where
  "sha256_hexdigest key = hexdigest (utf8_encode key)"


section \<open>Strings\<close>

definition isspace :: "char \<Rightarrow> bool" where
  "isspace c = (c \<in> set [CHR 0x09, CHR 0x0A, CHR 0x0B, CHR 0x0C, CHR 0x0D, CHR 0x1C, CHR 0x1D,
                          CHR 0x1E, CHR 0x1F, CHR 0x20, CHR 0x85, CHR 0xA0])"

definition strip :: "string \<Rightarrow> string" where
  "strip s = rev (dropWhile isspace (rev (dropWhile isspace s)))"

definition isalnum :: "char \<Rightarrow> bool" where
  "isalnum c =
     (let n = (of_char c :: nat) in
      (48 \<le> n \<and> n \<le> 57) \<or> (65 \<le> n \<and> n \<le> 90) \<or> (97 \<le> n \<and> n \<le> 122)
      \<or> n \<in> set [0xAA, 0xB2, 0xB3, 0xB5, 0xB9, 0xBA, 0xBC, 0xBD, 0xBE]
      \<or> (0xC0 \<le> n \<and> n \<noteq> 0xD7 \<and> n \<noteq> 0xF7))"

definition lower_char :: "char \<Rightarrow> char" where
  "lower_char c =
     (let n = (of_char c :: nat) in
      if (65 \<le> n \<and> n \<le> 90) \<or> (0xC0 \<le> n \<and> n \<le> 0xDE \<and> n \<noteq> 0xD7)
      then char_of (n + 32) else c)"

definition lower :: "string \<Rightarrow> string" where
  "lower s = map lower_char s"

definition startswith :: "string \<Rightarrow> string \<Rightarrow> bool" where
  "startswith s p = (take (length p) s = p)"

definition linebreak :: "char \<Rightarrow> bool" where
  "linebreak c = (c \<in> set [CHR 0x0A, CHR 0x0B, CHR 0x0C, CHR 0x0D, CHR 0x1C, CHR 0x1D,
                            CHR 0x1E, CHR 0x85])"

text \<open>
  \<^verbatim>\<open>str.splitlines()\<close>: \<^verbatim>\<open>cur\<close> is the current line, reversed. A carriage return
  followed by a line feed is one line break; a line break at the very end opens no new line.
\<close>

fun splitlines_from :: "string \<Rightarrow> string \<Rightarrow> string list" where
  "splitlines_from cur [] = (if cur = [] then [] else [rev cur])"
| "splitlines_from cur [c] = (if linebreak c then [rev cur] else [rev (c # cur)])"
| "splitlines_from cur (c # d # cs) =
     (if c = CHR 0x0D \<and> d = CHR 0x0A then rev cur # splitlines_from [] cs
      else if linebreak c then rev cur # splitlines_from [] (d # cs)
      else splitlines_from (c # cur) (d # cs))"

definition splitlines :: "string \<Rightarrow> string list" where
  "splitlines s = splitlines_from [] s"

text \<open>\<^verbatim>\<open>line.split(':', 1)[1]\<close>: what follows the first colon; no colon, no index 1.\<close>

definition after_first_colon :: "string \<Rightarrow> py_error + string" where
  "after_first_colon line =
     (if CHR '':'' \<in> set line then Inr (tl (dropWhile (\<lambda>c. c \<noteq> CHR '':'') line))
      else Inl IndexError)"

text \<open>\<^verbatim>\<open>str.find\<close> and \<^verbatim>\<open>str.rfind\<close> of one character: an index, or -1.\<close>

fun find_from :: "nat \<Rightarrow> char \<Rightarrow> string \<Rightarrow> int" where
  "find_from i c [] = - 1"
| "find_from i c (x # xs) = (if x = c then int i else find_from (Suc i) c xs)"

definition find_char :: "string \<Rightarrow> char \<Rightarrow> int" where
  "find_char s c = find_from 0 c s"

fun rfind_from :: "nat \<Rightarrow> char \<Rightarrow> string \<Rightarrow> int" where
  "rfind_from i c [] = - 1"
| "rfind_from i c (x # xs) =
     (if c \<in> set xs then rfind_from (Suc i) c xs else if x = c then int i else - 1)"

definition rfind_char :: "string \<Rightarrow> char \<Rightarrow> int" where
  "rfind_char s c = rfind_from 0 c s"

text \<open>The slice \<^verbatim>\<open>s[i:j]\<close> for indices that are not negative.\<close>

definition slice :: "string \<Rightarrow> int \<Rightarrow> int \<Rightarrow> string" where
  "slice s i j = take (nat j - nat i) (drop (nat i) s)"

text \<open>
  \<^verbatim>\<open>os.path.splitext\<close> (the \<^verbatim>\<open>_splitext\<close> of \<^verbatim>\<open>genericpath\<close>): the extension
  starts at the last dot, if that dot comes after the last separator and some character between
  the separator and the dot is not a dot.
\<close>

function has_non_dot :: "string \<Rightarrow> nat \<Rightarrow> nat \<Rightarrow> bool" where
  "has_non_dot p filenameIndex dotIndex =
     (if filenameIndex < dotIndex then
        (if take 1 (drop filenameIndex p) \<noteq> ''.'' then True
         else has_non_dot p (Suc filenameIndex) dotIndex)
      else False)"
  by pat_completeness auto
termination
  by (relation "measure (\<lambda>(p, i, d). d - i)") auto

definition splitext :: "char list \<Rightarrow> string \<Rightarrow> string \<times> string" where
  "splitext seps p =
     (let sepIndex = fold max (map (rfind_char p) seps) (- 1);
          dotIndex = rfind_char p (CHR ''.'')
      in if dotIndex > sepIndex \<and> has_non_dot p (nat (sepIndex + 1)) (nat dotIndex)
         then (take (nat dotIndex) p, drop (nat dotIndex) p)
         else (p, []))"

text \<open>
  \<^verbatim>\<open>str(dt)\<close> of a naive datetime: \<^verbatim>\<open>YYYY-MM-DD HH:MM:SS\<close>, followed by
  \<^verbatim>\<open>.ffffff\<close> when the microsecond is not zero. \<^verbatim>\<open>zpad k n\<close> is the decimal
  numeral of \<^verbatim>\<open>n\<close> on \<^verbatim>\<open>k\<close> digits (the last \<^verbatim>\<open>k\<close> digits; a datetime's
  fields fit).
\<close>

fun zpad :: "nat \<Rightarrow> nat \<Rightarrow> string" where
  "zpad 0 n = []"
| "zpad (Suc k) n = zpad k (n div 10) @ [char_of (48 + n mod 10)]"

fun str_naive :: "naive \<Rightarrow> string" where
  "str_naive (y, mo, d, h, mi, s, us) =
     zpad 4 y @ ''-'' @ zpad 2 mo @ ''-'' @ zpad 2 d @ '' '' @
     zpad 2 h @ '':'' @ zpad 2 mi @ '':'' @ zpad 2 s @
     (if us = 0 then [] else ''.'' @ zpad 6 us)"

section \<open>The message normalizer\<close>

subsection \<open>\<^verbatim>\<open>_parse_header_date_from_raw_headers\<close>\<close>

text \<open>The loop over the lines: the first line that starts with \<^verbatim>\<open>date:\<close> decides.\<close>

fun find_date_line :: "string list \<Rightarrow> py_error + string option" where
  "find_date_line [] = Inr None"
| "find_date_line (line # rest) =
     (if startswith (lower line) ''date:''
      then bnd (after_first_colon line) (\<lambda>v. Inr (Some (strip v)))
      else find_date_line rest)"

definition parse_header_date_from_raw_headers :: "platform \<Rightarrow> string \<Rightarrow> py_error + naive option" where
  "parse_header_date_from_raw_headers env raw_headers =
     (if raw_headers = [] then Inr None
      else bnd (find_date_line (splitlines raw_headers)) (\<lambda>date_line.
        (if falsy date_line then Inr None
         else (case parsedate_to_datetime env (the date_line) of
                 Raises \<Rightarrow> Inr None
               | Returns None \<Rightarrow> Inr None
               | Returns (Some dt) \<Rightarrow> Inr (to_naive_local env (Some dt))))))"

subsection \<open>\<^verbatim>\<open>save_mail_and_attachments\<close>\<close>

record attachment =
  FileName :: "string attr"
  SaveAsFile :: "string \<Rightarrow> bool"

text \<open>
  A COM collection: \<^verbatim>\<open>Count\<close> and \<^verbatim>\<open>Item(i)\<close>, which may raise.
  \<^verbatim>\<open>SaveAsFile\<close> is whether saving to the path succeeds (it raises otherwise).
\<close>

record 'a collection =
  Count :: "int attr"
  Item :: "int \<Rightarrow> 'a call"

record message =
  Subject :: "string attr"
  ReceivedTime :: "datetime option attr"
  Body :: "string attr"
  SenderName :: "string attr"
  SenderEmailAddress :: "string attr"
  InternetMessageID :: "string attr"
  EntryID :: "string attr"
  PropertyAccessor :: "(string \<Rightarrow> string call) attr"
  Attachments :: "attachment collection attr"

datatype event =
    WroteText string string
  | SavedAttachment string string
  | SkippedAttachment string string
  | SaveFailed string

text \<open>What the function returns: the tuple of its last line.\<close>

record normalized =
  res_txt_path :: string
  res_saved_att :: "string list"
  res_received :: naive
  res_message_id :: string
  res_chosen_date :: naive
  res_date_source :: string

definition naive_datetime :: "naive \<Rightarrow> datetime" where
  "naive_datetime n = \<lparr>wall = n, tzinfo = None\<rparr>"

definition safe_subject :: "string \<Rightarrow> string" where
  "safe_subject subj = take 100 (strip (filter (\<lambda>c. isalnum c \<or> c \<in> set '' _-'') subj))"

text \<open>\<^verbatim>\<open>getattr(obj, name, None)\<close> inside \<^verbatim>\<open>try ... except: pass\<close>.\<close>

definition getattr_quiet :: "'a attr \<Rightarrow> 'a option" where
  "getattr_quiet a = (case a of Has v \<Rightarrow> Some v | _ \<Rightarrow> None)"

definition getattr_none :: "'a attr \<Rightarrow> py_error + 'a option" where
  "getattr_none a = (case a of Missing \<Rightarrow> Inr None | Failing \<Rightarrow> Inl ComError | Has v \<Rightarrow> Inr (Some v))"

definition fingerprint_key :: "string \<Rightarrow> string \<Rightarrow> naive \<Rightarrow> string \<Rightarrow> string" where
  "fingerprint_key subj sender received' body =
     subj @ ''|'' @ sender @ ''|'' @ str_naive received' @ ''|'' @ take 500 body"

definition sender_of :: "message \<Rightarrow> py_error + string" where
  "sender_of msg =
     bnd (getattr_d (SenderEmailAddress msg) []) (\<lambda>addr.
       if addr \<noteq> [] then Inr addr else getattr_d (SenderName msg) [])"

definition build_message_id :: "platform \<Rightarrow> message \<Rightarrow> string \<Rightarrow> naive \<Rightarrow> string \<Rightarrow> py_error + string" where
  "build_message_id env msg subj received' body =
     (let message_id1 = getattr_quiet (InternetMessageID msg);
          message_id2 = (if falsy message_id1 then getattr_quiet (EntryID msg) else message_id1)
      in if falsy message_id2
         then bnd (sender_of msg) (\<lambda>sender.
                Inr (sha256_hexdigest (fingerprint_key subj sender received' body)))
         else Inr (the message_id2))"

text \<open>
  Lines 281 to 297: the raw header block is read through the property accessor; every exception
  in the block leaves \<^verbatim>\<open>parsed_header_date = None\<close> and
  \<^verbatim>\<open>date_source = 'received_time'\<close>.
\<close>

definition raw_header_block :: "message \<Rightarrow> string option call" where
  "raw_header_block msg =
     (case PropertyAccessor msg of
        Failing \<Rightarrow> Raises
      | Missing \<Rightarrow> Returns None
      | Has GetProperty \<Rightarrow>
          (case GetProperty ''http://schemas.microsoft.com/mapi/proptag/0x007D001E'' of
             Raises \<Rightarrow> Returns None
           | Returns h \<Rightarrow> Returns (Some h)))"

definition header_date :: "platform \<Rightarrow> message \<Rightarrow> naive option \<times> string" where
  "header_date env msg =
     (case raw_header_block msg of
        Raises \<Rightarrow> (None, ''received_time'')
      | Returns raw_headers \<Rightarrow>
          (if falsy raw_headers then (None, ''received_time'')
           else (case parse_header_date_from_raw_headers env (the raw_headers) of
                   Inl e \<Rightarrow> (None, ''received_time'')
                 | Inr None \<Rightarrow> (None, ''received_time'')
                 | Inr (Some d) \<Rightarrow> (Some d, ''header_date''))))"

definition allowed_exts :: "string list" where
  "allowed_exts = [''.pdf'', ''.docx'', ''.doc'', ''.xlsx'', ''.xls'', ''.pptx'', ''.ppt'', ''.txt'', ''.csv'']"

text \<open>
  The body of the attachment loop, for one attachment: the path it was saved to, if it was, and
  what was done or logged.
\<close>

definition save_attachment :: "platform \<Rightarrow> string \<Rightarrow> string \<Rightarrow> attachment \<Rightarrow> py_error + string option \<times> event list" where
  "save_attachment env outdir base_name att =
     bnd (getattr_none (FileName att)) (\<lambda>att_name.
       if falsy att_name then Inr (None, [])
       else (let name = the att_name; ext = snd (splitext (path_seps env) name) in
             if lower ext \<notin> set allowed_exts then Inr (None, [SkippedAttachment name ext])
             else (let att_path = joinpath env outdir (base_name @ ''_'' @ name) in
                   if SaveAsFile att att_path
                   then Inr (Some att_path, [SavedAttachment name att_path])
                   else Inr (None, [SaveFailed name]))))"

fun save_attachments_loop ::
  "platform \<Rightarrow> string \<Rightarrow> string \<Rightarrow> attachment collection \<Rightarrow> int list \<Rightarrow> string list \<Rightarrow> event list
     \<Rightarrow> py_error + string list \<times> event list" where
  "save_attachments_loop env outdir base_name atts [] saved_att evs = Inr (saved_att, evs)"
| "save_attachments_loop env outdir base_name atts (i # is) saved_att evs =
     (case Item atts i of
        Raises \<Rightarrow> Inl ComError
      | Returns att \<Rightarrow>
          bnd (save_attachment env outdir base_name att) (\<lambda>(p, ev).
            save_attachments_loop env outdir base_name atts is
              (case p of None \<Rightarrow> saved_att | Some att_path \<Rightarrow> saved_att @ [att_path]) (evs @ ev)))"

definition attachment_count :: "'a collection \<Rightarrow> int" where
  "attachment_count atts = (case Count atts of Has n \<Rightarrow> n | _ \<Rightarrow> 0)"

definition save_attachments :: "platform \<Rightarrow> string \<Rightarrow> string \<Rightarrow> message \<Rightarrow> py_error + string list \<times> event list" where
  "save_attachments env outdir base_name msg =
     bnd (getattr_none (Attachments msg)) (\<lambda>attachments'.
       (case attachments' of
          None \<Rightarrow> Inr ([], [])
        | Some atts \<Rightarrow>
            save_attachments_loop env outdir base_name atts [1..attachment_count atts] [] []))"

definition receipt_time :: "platform \<Rightarrow> message \<Rightarrow> py_error + naive" where
  "receipt_time env msg =
     bnd (getattr_d (ReceivedTime msg) (Some (naive_datetime (now env)))) (\<lambda>rt.
       (case to_naive_local env rt of
          None \<Rightarrow> Inl AttributeError
        | Some received' \<Rightarrow> Inr received'))"

definition subject_of :: "message \<Rightarrow> py_error + string" where
  "subject_of msg =
     bnd (getattr_d (Subject msg) []) (\<lambda>s. Inr (if s = [] then ''no_subject'' else s))"

definition body_text :: "string \<Rightarrow> string \<Rightarrow> naive \<Rightarrow> string \<Rightarrow> string" where
  "body_text subj sender_name received' body =
     ''Subject: '' @ subj @ [CHR 0x0A] @ ''From: '' @ sender_name @ [CHR 0x0A] @
     ''Received: '' @ str_naive received' @ [CHR 0x0A, CHR 0x0A] @ body"

definition save_mail_and_attachments :: "platform \<Rightarrow> message \<Rightarrow> string \<Rightarrow> py_error + normalized \<times> event list" where
  "save_mail_and_attachments env msg outdir =
     bnd (subject_of msg) (\<lambda>subj.
     bnd (receipt_time env msg) (\<lambda>received'.
     (case strftime env ''%Y%m%d_%H%M%S'' received' of
        None \<Rightarrow> Inl ValueError
      | Some stamp \<Rightarrow>
         (let base_name = stamp @ ''_'' @ safe_subject subj;
              path = joinpath env outdir (base_name @ ''.txt'') in
          bnd (getattr_d (Body msg) []) (\<lambda>body.
          if \<not> can_write env path then Inl OSError
          else
          bnd (getattr_d (SenderName msg) []) (\<lambda>sender_name.
          bnd (build_message_id env msg subj received' body) (\<lambda>mid.
          bnd (save_attachments env outdir base_name msg) (\<lambda>(saved_att, evs).
            Inr (\<lparr>res_txt_path = path,
                  res_saved_att = saved_att,
                  res_received = received',
                  res_message_id = mid,
                  res_chosen_date = (case fst (header_date env msg) of None \<Rightarrow> received' | Some d \<Rightarrow> d),
                  res_date_source = snd (header_date env msg)\<rparr>,
                 WroteText path (body_text subj sender_name received' body) # evs)))))))))"

text \<open>
  The receipt time the function works with: the store's \<^verbatim>\<open>ReceivedTime\<close>, or the wall
  clock when the message has no such attribute (the default of the \<^verbatim>\<open>getattr\<close>).
\<close>

definition receipt_source :: "platform \<Rightarrow> message \<Rightarrow> datetime option" where
  "receipt_source env msg =
     (case ReceivedTime msg of Has rt \<Rightarrow> rt | _ \<Rightarrow> Some (naive_datetime (now env)))"

text \<open>The path attachment \<^verbatim>\<open>i\<close> of a collection is saved to, when it is saved.\<close>

definition persisted_path :: "platform \<Rightarrow> string \<Rightarrow> string \<Rightarrow> attachment collection \<Rightarrow> int \<Rightarrow> string option" where
  "persisted_path env outdir base_name atts i =
     (case Item atts i of
        Raises \<Rightarrow> None
      | Returns att \<Rightarrow>
          (case save_attachment env outdir base_name att of
             Inr (Some att_path, ev) \<Rightarrow> Some att_path
           | _ \<Rightarrow> None))"


section \<open>The range query resolver\<close>

text \<open>
  The folder's item collection: its messages, \<^verbatim>\<open>Restrict(filter)\<close>, which returns a
  new collection or raises, and \<^verbatim>\<open>Sort\<close>, which reorders the collection in place or
  raises (\<^verbatim>\<open>Sort\<close> holds the collection as it is after a successful call). Setting
  \<^verbatim>\<open>IncludeRecurrences\<close> has no result the program reads.
\<close>

datatype items =
  Items (members: "message collection") (Restrict: "string \<Rightarrow> items call") (Sort: "items call")

record folder =
  FolderItems :: "items attr"

datatype restrict_call = DaslRestrict string | MapiRestrict string

definition dasl_filter :: "string \<Rightarrow> string \<Rightarrow> string" where
  "dasl_filter dasl_since dasl_until =
     ''@SQL='' @ [CHR 0x22] @ ''urn:schemas:httpmail:datereceived'' @ [CHR 0x22] @ '' >= '' @
     [CHR 0x27] @ dasl_since @ [CHR 0x27] @ '' AND '' @
     [CHR 0x22] @ ''urn:schemas:httpmail:datereceived'' @ [CHR 0x22] @ '' <= '' @
     [CHR 0x27] @ dasl_until @ [CHR 0x27]"

definition mapi_filter :: "string \<Rightarrow> string \<Rightarrow> string" where
  "mapi_filter since_str until_str =
     ''[ReceivedTime] >= '' @ [CHR 0x27] @ since_str @ [CHR 0x27] @
     '' AND [ReceivedTime] <= '' @ [CHR 0x27] @ until_str @ [CHR 0x27]"

text \<open>The two \<^verbatim>\<open>strftime\<close> calls of one \<^verbatim>\<open>try\<close> block: both succeed, or the block fails.\<close>

definition strftime2 :: "platform \<Rightarrow> string \<Rightarrow> naive \<Rightarrow> naive \<Rightarrow> (string \<times> string) option" where
  "strftime2 env fmt a b =
     (case strftime env fmt a of
        None \<Rightarrow> None
      | Some x \<Rightarrow> (case strftime env fmt b of None \<Rightarrow> None | Some y \<Rightarrow> Some (x, y)))"

text \<open>Step 2 of \<^verbatim>\<open>restrict_items_range\<close>, reached when step 1 did not return.\<close>

definition mapi_fallback ::
  "platform \<Rightarrow> items \<Rightarrow> naive \<Rightarrow> naive \<Rightarrow> restrict_call list \<Rightarrow> py_error + items option \<times> restrict_call list" where
  "mapi_fallback env its since_dt until_dt calls =
     (case (case strftime2 env ''%m/%d/%Y %I:%M %p'' since_dt until_dt of
              Some strs \<Rightarrow> Some strs
            | None \<Rightarrow> strftime2 env ''%m/%d/%Y'' since_dt until_dt) of
        None \<Rightarrow> Inl ValueError
      | Some (since_str, until_str) \<Rightarrow>
          (let mapi_restrict = mapi_filter since_str until_str in
           (case Restrict its mapi_restrict of
              Returns filtered \<Rightarrow> Inr (Some filtered, calls @ [MapiRestrict mapi_restrict])
            | Raises \<Rightarrow> Inr (Some its, calls @ [MapiRestrict mapi_restrict]))))"

text \<open>
  \<^verbatim>\<open>restrict_items_range\<close> returns the collection (or \<^verbatim>\<open>None\<close>); the list of
  \<^verbatim>\<open>Restrict\<close> calls it made is returned with it.
\<close>

definition dasl_step ::
  "platform \<Rightarrow> items \<Rightarrow> naive \<Rightarrow> naive \<Rightarrow> string \<Rightarrow> py_error + items option \<times> restrict_call list" where
  "dasl_step env its since_dt until_dt dasl =
     (case Restrict its dasl of
        Raises \<Rightarrow> mapi_fallback env its since_dt until_dt [DaslRestrict dasl]
      | Returns filtered \<Rightarrow>
          (case Count (members filtered) of
             Failing \<Rightarrow> Inr (Some filtered, [DaslRestrict dasl])
           | Missing \<Rightarrow> mapi_fallback env its since_dt until_dt [DaslRestrict dasl]
           | Has n \<Rightarrow>
               (if n > 0 then Inr (Some filtered, [DaslRestrict dasl])
                else mapi_fallback env its since_dt until_dt [DaslRestrict dasl])))"

definition sorted_items :: "items \<Rightarrow> items" where
  "sorted_items its = (case Sort its of Returns s \<Rightarrow> s | Raises \<Rightarrow> its)"

definition restrict_items_range ::
  "platform \<Rightarrow> folder \<Rightarrow> naive \<Rightarrow> naive \<Rightarrow> py_error + items option \<times> restrict_call list" where
  "restrict_items_range env fld since_dt until_dt =
     bnd (getattr_none (FolderItems fld)) (\<lambda>items0.
       (case items0 of
          None \<Rightarrow> Inr (None, [])
        | Some items1 \<Rightarrow>
            (case strftime2 env ''%Y-%m-%d %H:%M:%S'' since_dt until_dt of
               None \<Rightarrow> Inl ValueError
             | Some (dasl_since, dasl_until) \<Rightarrow>
                 dasl_step env (sorted_items items1) since_dt until_dt
                   (dasl_filter dasl_since dasl_until))))"

section \<open>The fetch loop of \<^verbatim>\<open>main\<close>\<close>

datatype outcome =
    NoReceivedTime
  | OutOfWindow naive
  | ItemFailed py_error
  | Saved saved_email "event list"

definition saved_record :: "normalized \<Rightarrow> saved_email" where
  "saved_record n =
     \<lparr>txt_path = res_txt_path n,
      attachments = res_saved_att n,
      received = Some (res_chosen_date n),
      message_id = Some (res_message_id n),
      date_source = res_date_source n,
      raw_received = Some (res_received n)\<rparr>"

text \<open>
  The second \<^verbatim>\<open>try\<close> block of the loop body, for one message: lines 563 to 583.
  \<^verbatim>\<open>now'\<close> is \<^verbatim>\<open>until\<close> (line 516).
\<close>

definition process_item :: "platform \<Rightarrow> string \<Rightarrow> naive \<Rightarrow> naive \<Rightarrow> message \<Rightarrow> outcome" where
  "process_item env outdir since now' msg =
     (case getattr_none (ReceivedTime msg) of
        Inl e \<Rightarrow> ItemFailed e
      | Inr rt \<Rightarrow>
          (case to_naive_local env (case rt of None \<Rightarrow> None | Some t \<Rightarrow> t) of
             None \<Rightarrow> NoReceivedTime
           | Some raw \<Rightarrow>
               (if raw < since \<or> raw > now' then OutOfWindow raw
                else (case save_mail_and_attachments env msg outdir of
                        Inl e \<Rightarrow> ItemFailed e
                      | Inr (n, evs) \<Rightarrow> Saved (saved_record n) evs))))"

fun fetch_loop ::
  "platform \<Rightarrow> string \<Rightarrow> naive \<Rightarrow> naive \<Rightarrow> message collection \<Rightarrow> int list \<Rightarrow> saved_email list
     \<Rightarrow> saved_email list" where
  "fetch_loop env outdir since now' coll [] saved_emails = saved_emails"
| "fetch_loop env outdir since now' coll (i # is) saved_emails =
     (case Item coll i of
        Raises \<Rightarrow> fetch_loop env outdir since now' coll is saved_emails
      | Returns msg \<Rightarrow>
          (case process_item env outdir since now' msg of
             Saved r evs \<Rightarrow> fetch_loop env outdir since now' coll is (saved_emails @ [r])
           | _ \<Rightarrow> fetch_loop env outdir since now' coll is saved_emails))"

text \<open>\<^verbatim>\<open>count = getattr(items, 'Count', 0) or 0\<close>, where \<^verbatim>\<open>items\<close> may be \<^verbatim>\<open>None\<close>.\<close>

definition items_count :: "items option \<Rightarrow> py_error + int" where
  "items_count its =
     (case its of
        None \<Rightarrow> Inr 0
      | Some c \<Rightarrow> getattr_d (Count (members c)) 0)"

definition ingest :: "platform \<Rightarrow> string \<Rightarrow> naive \<Rightarrow> naive \<Rightarrow> items option \<Rightarrow> py_error + saved_email list" where
  "ingest env outdir since now' its =
     bnd (items_count its) (\<lambda>count.
       (case its of
          None \<Rightarrow> Inr []
        | Some c \<Rightarrow> Inr (fetch_loop env outdir since now' (members c) [1..count] [])))"

definition fetch_saved_emails :: "platform \<Rightarrow> string \<Rightarrow> folder \<Rightarrow> naive \<Rightarrow> naive \<Rightarrow> py_error + saved_email list" where
  "fetch_saved_emails env outdir fld since until =
     bnd (restrict_items_range env fld since until) (\<lambda>(its, calls).
       ingest env outdir since until its)"

text \<open>The record the loop appends for item \<^verbatim>\<open>i\<close>, when it appends one.\<close>

definition saved_of :: "platform \<Rightarrow> string \<Rightarrow> naive \<Rightarrow> naive \<Rightarrow> message collection \<Rightarrow> int \<Rightarrow> saved_email option" where
  "saved_of env outdir since now' coll i =
     (case Item coll i of
        Raises \<Rightarrow> None
      | Returns msg \<Rightarrow>
          (case process_item env outdir since now' msg of
             Saved r evs \<Rightarrow> Some r
           | _ \<Rightarrow> None))"


section \<open>The extraction stage: recovering JSON from the response\<close>

text \<open>
  \<^verbatim>\<open>re.search(r'\{.*\}', text, re.S)\<close>: with \<^verbatim>\<open>re.S\<close> the dot matches every
  character and the star is greedy, so the leftmost match starts at the first opening brace and
  ends at the last closing brace, when that one comes later; there is no match otherwise.
\<close>

definition re_search_braces :: "string \<Rightarrow> string option" where
  "re_search_braces text =
     (let start = find_char text (CHR ''{''); end' = rfind_char text (CHR ''}'') in
      if start \<noteq> - 1 \<and> end' > start then Some (slice text start (end' + 1)) else None)"

definition extract_first_json_block :: "platform \<Rightarrow> string \<Rightarrow> string" where
  "extract_first_json_block env text =
     (let start = find_char text (CHR ''{''); end' = rfind_char text (CHR ''}'') in
      if start \<noteq> - 1 \<and> end' \<noteq> - 1 \<and> end' > start
         \<and> json_loads_ok env (slice text start (end' + 1))
      then slice text start (end' + 1)
      else (case re_search_braces text of
              Some m \<Rightarrow> (if json_loads_ok env m then m else m)
            | None \<Rightarrow> text))"

text \<open>
  The end of \<^verbatim>\<open>call_openai_extract_updates\<close> (lines 411 to 417): \<^verbatim>\<open>content\<close> is
  the text of the response.
\<close>

definition extract_updates_json_text :: "platform \<Rightarrow> string \<Rightarrow> string" where
  "extract_updates_json_text env content =
     (let json_text = strip content in
      if json_loads_ok env json_text then json_text
      else extract_first_json_block env json_text)"

subsection \<open>A recogniser of JSON texts\<close>

text \<open>
  The texts \<^verbatim>\<open>json.loads\<close> accepts, its resource limits apart: the grammar of RFC 8259
  with the literals \<^verbatim>\<open>NaN\<close>, \<^verbatim>\<open>Infinity\<close> and \<^verbatim>\<open>-Infinity\<close>. The recogniser
  stands for \<^const>\<open>json_loads_ok\<close> on the platform of the examples; the properties of the
  recovery hold for every \<^const>\<open>json_loads_ok\<close>.
\<close>

definition json_ws :: "char \<Rightarrow> bool" where
  "json_ws c = (c \<in> set [CHR 0x20, CHR 0x09, CHR 0x0A, CHR 0x0D])"

definition skip_ws :: "string \<Rightarrow> string" where
  "skip_ws s = dropWhile json_ws s"

definition eat :: "char \<Rightarrow> string \<Rightarrow> string option" where
  "eat c s = (case s of [] \<Rightarrow> None | x # xs \<Rightarrow> if x = c then Some xs else None)"

definition is_digit :: "char \<Rightarrow> bool" where
  "is_digit c = (48 \<le> (of_char c :: nat) \<and> (of_char c :: nat) \<le> 57)"

definition is_hex :: "char \<Rightarrow> bool" where
  "is_hex c = (is_digit c \<or> c \<in> set ''abcdefABCDEF'')"

text \<open>A string, after its opening quote: what follows the closing quote.\<close>

function json_string_rest :: "string \<Rightarrow> string option" where
  "json_string_rest [] = None"
| "json_string_rest (c # cs) =
     (if c = CHR 0x22 then Some cs
      else if c = CHR 0x5C then
        (case cs of
           [] \<Rightarrow> None
         | e # es \<Rightarrow>
             if e \<in> set [CHR 0x22, CHR 0x5C, CHR ''/'', CHR ''b'', CHR ''f'', CHR ''n'', CHR ''r'', CHR ''t'']
             then json_string_rest es
             else if e = CHR ''u'' \<and> length es \<ge> 4 \<and> list_all is_hex (take 4 es)
             then json_string_rest (drop 4 es)
             else None)
      else if (of_char c :: nat) < 32 then None
      else json_string_rest cs)"
  by pat_completeness auto
termination
  by (relation "measure length") auto

definition json_digits :: "string \<Rightarrow> string option" where
  "json_digits s = (if s \<noteq> [] \<and> is_digit (hd s) then Some (dropWhile is_digit s) else None)"

definition json_int :: "string \<Rightarrow> string option" where
  "json_int s =
     (case s of
        [] \<Rightarrow> None
      | c # cs \<Rightarrow> if c = CHR ''0'' then Some cs else json_digits s)"

definition json_frac :: "string \<Rightarrow> string" where
  "json_frac s =
     (case eat (CHR ''.'') s of
        None \<Rightarrow> s
      | Some r \<Rightarrow> (case json_digits r of None \<Rightarrow> s | Some r' \<Rightarrow> r'))"

definition json_exp :: "string \<Rightarrow> string" where
  "json_exp s =
     (if s \<noteq> [] \<and> (hd s = CHR ''e'' \<or> hd s = CHR ''E'') then
        (let r = tl s;
             r' = (if r \<noteq> [] \<and> (hd r = CHR ''+'' \<or> hd r = CHR ''-'') then tl r else r)
         in case json_digits r' of None \<Rightarrow> s | Some r'' \<Rightarrow> r'')
      else s)"

definition json_number :: "string \<Rightarrow> string option" where
  "json_number s =
     (case json_int (case eat (CHR ''-'') s of None \<Rightarrow> s | Some r \<Rightarrow> r) of
        None \<Rightarrow> None
      | Some r \<Rightarrow> Some (json_exp (json_frac r)))"

definition json_literal :: "string \<Rightarrow> string option" where
  "json_literal s =
     (if startswith s ''null'' then Some (drop 4 s)
      else if startswith s ''true'' then Some (drop 4 s)
      else if startswith s ''false'' then Some (drop 5 s)
      else if startswith s ''NaN'' then Some (drop 3 s)
      else if startswith s ''Infinity'' then Some (drop 8 s)
      else if startswith s ''-Infinity'' then Some (drop 9 s)
      else json_number s)"

text \<open>
  Values, array elements and object members; the first argument bounds the number of nested
  calls, and every call consumes a character, so the length of the text is enough.
\<close>

fun json_value :: "nat \<Rightarrow> string \<Rightarrow> string option"
  and json_elements :: "nat \<Rightarrow> string \<Rightarrow> string option"
  and json_members :: "nat \<Rightarrow> string \<Rightarrow> string option" where
  "json_value 0 s = None"
| "json_value (Suc n) s =
     (case s of
        [] \<Rightarrow> None
      | c # cs \<Rightarrow>
          if c = CHR 0x22 then json_string_rest cs
          else if c = CHR ''{'' then
            (case eat (CHR ''}'') (skip_ws cs) of
               Some r \<Rightarrow> Some r
             | None \<Rightarrow> json_members n (skip_ws cs))
          else if c = CHR ''['' then
            (case eat (CHR '']'') (skip_ws cs) of
               Some r \<Rightarrow> Some r
             | None \<Rightarrow> json_elements n (skip_ws cs))
          else json_literal s)"
| "json_elements 0 s = None"
| "json_elements (Suc n) s =
     (case json_value n s of
        None \<Rightarrow> None
      | Some r \<Rightarrow>
          (case eat (CHR '','') (skip_ws r) of
             Some r' \<Rightarrow> json_elements n (skip_ws r')
           | None \<Rightarrow> eat (CHR '']'') (skip_ws r)))"
| "json_members 0 s = None"
| "json_members (Suc n) s =
     (case eat (CHR 0x22) s of
        None \<Rightarrow> None
      | Some cs \<Rightarrow>
          (case json_string_rest cs of
             None \<Rightarrow> None
           | Some r \<Rightarrow>
               (case eat (CHR '':'') (skip_ws r) of
                  None \<Rightarrow> None
                | Some r' \<Rightarrow>
                    (case json_value n (skip_ws r') of
                       None \<Rightarrow> None
                     | Some r2 \<Rightarrow>
                         (case eat (CHR '','') (skip_ws r2) of
                            Some r3 \<Rightarrow> json_members n (skip_ws r3)
                          | None \<Rightarrow> eat (CHR ''}'') (skip_ws r2))))))"

definition json_document :: "string \<Rightarrow> bool" where
  "json_document s =
     (case json_value (Suc (length s)) (skip_ws s) of
        None \<Rightarrow> False
      | Some r \<Rightarrow> skip_ws r = [])"


section \<open>A platform and inputs for the examples\<close>

text \<open>
  A Windows machine in the UTC zone with a writable output directory: \<^verbatim>\<open>astimezone\<close>
  moves an aware datetime to UTC by calendar arithmetic and raises when the result leaves the
  years 1 to 9999; \<^verbatim>\<open>strftime\<close> knows the formats of the program, and
  \<^verbatim>\<open>parsedate_to_datetime\<close> the \<^verbatim>\<open>Date:\<close> values of the examples.
\<close>

text \<open>Days since 1970-01-01 of a date of the proleptic Gregorian calendar, and back.\<close>

definition days_from_civil :: "int \<Rightarrow> int \<Rightarrow> int \<Rightarrow> int" where
  "days_from_civil y m d =
     (let y' = (if m \<le> 2 then y - 1 else y);
          era = y' div 400;
          yoe = y' - era * 400;
          doy = (153 * (if m > 2 then m - 3 else m + 9) + 2) div 5 + d - 1;
          doe = yoe * 365 + yoe div 4 - yoe div 100 + doy
      in era * 146097 + doe - 719468)"

definition civil_from_days :: "int \<Rightarrow> int \<times> int \<times> int" where
  "civil_from_days z =
     (let era = (z + 719468) div 146097;
          doe = (z + 719468) - era * 146097;
          yoe = (doe - doe div 1460 + doe div 36524 - doe div 146096) div 365;
          doy = doe - (365 * yoe + yoe div 4 - yoe div 100);
          mp = (5 * doy + 2) div 153;
          d = doy - (153 * mp + 2) div 5 + 1;
          m = (if mp < 10 then mp + 3 else mp - 9)
      in (yoe + era * 400 + (if m \<le> 2 then 1 else 0), m, d))"

text \<open>The wall clock at UTC of the instant an aware datetime names, with no bound on the year.\<close>

fun utc_wall :: "naive \<Rightarrow> int \<Rightarrow> int \<times> int \<times> int \<times> int \<times> int \<times> int \<times> int" where
  "utc_wall (y, mo, d, h, mi, s, us) offset =
     (let secs = int h * 3600 + int mi * 60 + int s - offset;
          date = civil_from_days (days_from_civil (int y) (int mo) (int d) + secs div 86400);
          t = secs mod 86400
      in (fst date, fst (snd date), snd (snd date), t div 3600, t mod 3600 div 60, t mod 60, int us))"

fun in_range :: "int \<times> int \<times> int \<times> int \<times> int \<times> int \<times> int \<Rightarrow> naive option" where
  "in_range (y, mo, d, h, mi, s, us) =
     (if 1 \<le> y \<and> y \<le> 9999 then Some (nat y, nat mo, nat d, nat h, nat mi, nat s, nat us)
      else None)"

definition astimezone_utc :: "datetime \<Rightarrow> naive option" where
  "astimezone_utc d =
     (case tzinfo d of
        None \<Rightarrow> Some (wall d)
      | Some offset \<Rightarrow> in_range (utc_wall (wall d) offset))"

fun strftime_model :: "string \<Rightarrow> naive \<Rightarrow> string option" where
  "strftime_model fmt (y, mo, d, h, mi, s, us) =
     (if fmt = ''%Y%m%d_%H%M%S'' then
        Some (zpad 4 y @ zpad 2 mo @ zpad 2 d @ ''_'' @ zpad 2 h @ zpad 2 mi @ zpad 2 s)
      else if fmt = ''%y%m%d'' then Some (zpad 2 y @ zpad 2 mo @ zpad 2 d)
      else if fmt = ''%Y-%m-%d %H:%M:%S'' then
        Some (zpad 4 y @ ''-'' @ zpad 2 mo @ ''-'' @ zpad 2 d @ '' '' @
              zpad 2 h @ '':'' @ zpad 2 mi @ '':'' @ zpad 2 s)
      else if fmt = ''%m/%d/%Y %I:%M %p'' then
        Some (zpad 2 mo @ ''/'' @ zpad 2 d @ ''/'' @ zpad 4 y @ '' '' @
              zpad 2 (if h mod 12 = 0 then 12 else h mod 12) @ '':'' @ zpad 2 mi @ '' '' @
              (if h < 12 then ''AM'' else ''PM''))
      else if fmt = ''%m/%d/%Y'' then Some (zpad 2 mo @ ''/'' @ zpad 2 d @ ''/'' @ zpad 4 y)
      else None)"

definition parsedate_model :: "string \<Rightarrow> datetime option call" where
  "parsedate_model s =
     (if s = ''Fri, 15 Aug 2025 09:00:00 +0000''
      then Returns (Some \<lparr>wall = (2025, 8, 15, 9, 0, 0, 0), tzinfo = Some 0\<rparr>)
      else if s = ''Sat, 16 Aug 2025 05:00:00 +1000''
      then Returns (Some \<lparr>wall = (2025, 8, 16, 5, 0, 0, 0), tzinfo = Some 36000\<rparr>)
      else if s = ''Fri, 31 Dec 9999 23:59:59 -0100''
      then Returns (Some \<lparr>wall = (9999, 12, 31, 23, 59, 59, 0), tzinfo = Some (- 3600)\<rparr>)
      else Raises)"

definition utc_platform :: platform where
  "utc_platform =
     \<lparr>astimezone_local = astimezone_utc,
      now = (2025, 8, 20, 12, 0, 0, 0),
      strftime = strftime_model,
      parsedate_to_datetime = parsedate_model,
      json_loads_ok = json_document,
      can_write = (\<lambda>p. True),
      joinpath = (\<lambda>d f. d @ [CHR 0x5C] @ f),
      path_seps = [CHR 0x5C, CHR ''/'']\<rparr>"

definition plain_message :: message where
  "plain_message =
     \<lparr>Subject = Has ''Rate change'',
      ReceivedTime = Has (Some \<lparr>wall = (2025, 8, 5, 10, 0, 0, 0), tzinfo = Some 0\<rparr>),
      Body = Has ''New rates apply.'',
      SenderName = Has ''Lender'',
      SenderEmailAddress = Has ''policy@lender.example'',
      InternetMessageID = Has ''<m1@lender.example>'',
      EntryID = Has ''00000001'',
      PropertyAccessor = Missing,
      Attachments = Missing\<rparr>"

definition date_headers :: string where
  "date_headers = ''Received: by mx'' @ [CHR 0x0D, CHR 0x0A] @
                  ''DATE: Fri, 15 Aug 2025 09:00:00 +0000'' @ [CHR 0x0D, CHR 0x0A] @
                  ''Subject: Rate change'' @ [CHR 0x0D, CHR 0x0A]"

definition headed_message :: message where
  "headed_message = plain_message\<lparr>PropertyAccessor := Has (\<lambda>tag. Returns date_headers)\<rparr>"

definition unstamped_message :: message where
  "unstamped_message = plain_message\<lparr>ReceivedTime := Missing\<rparr>"

definition anonymous_message :: message where
  "anonymous_message = plain_message\<lparr>InternetMessageID := Missing, EntryID := Has []\<rparr>"

definition anonymous_message' :: message where
  "anonymous_message' = plain_message\<lparr>InternetMessageID := Failing, EntryID := Missing,
     Body := Has ''New rates apply.''\<rparr>"

text \<open>
  Two messages without identifiers that have the same subject, sender, body and
  \<^verbatim>\<open>Date:\<close> header, and were received a day apart.
\<close>

definition redelivered_message :: message where
  "redelivered_message = headed_message\<lparr>InternetMessageID := Missing, EntryID := Missing\<rparr>"

definition redelivered_message' :: message where
  "redelivered_message' = redelivered_message
     \<lparr>ReceivedTime := Has (Some \<lparr>wall = (2025, 8, 6, 11, 0, 0, 0), tzinfo = Some 0\<rparr>)\<rparr>"

definition saving :: "string \<Rightarrow> attachment" where
  "saving name = \<lparr>FileName = Has name, SaveAsFile = (\<lambda>p. True)\<rparr>"

definition not_saving :: "string \<Rightarrow> attachment" where
  "not_saving name = \<lparr>FileName = Has name, SaveAsFile = (\<lambda>p. False)\<rparr>"

definition three_attachments :: "attachment collection" where
  "three_attachments =
     \<lparr>Count = Has 3,
      Item = (\<lambda>i. if i = 1 then Returns (saving ''report.PDF'')
                   else if i = 2 then Returns (saving ''report.exe'')
                   else if i = 3 then Returns (saving ''report.pdf'')
                   else Raises)\<rparr>"

definition attached_message :: message where
  "attached_message = plain_message\<lparr>Attachments := Has three_attachments\<rparr>"

definition unsaved_attachment :: "attachment collection" where
  "unsaved_attachment =
     \<lparr>Count = Has 1, Item = (\<lambda>i. if i = 1 then Returns (not_saving ''report.pdf'') else Raises)\<rparr>"

definition unsaved_message :: message where
  "unsaved_message = plain_message\<lparr>Attachments := Has unsaved_attachment\<rparr>"

text \<open>The values a call returned: receipt time, identity, chosen date, date source, saved attachments.\<close>

definition returned ::
  "py_error + normalized \<times> event list \<Rightarrow> (naive \<times> string \<times> naive \<times> string \<times> string list) option" where
  "returned r =
     (case r of
        Inl e \<Rightarrow> None
      | Inr (n, evs) \<Rightarrow>
          Some (res_received n, res_message_id n, res_chosen_date n, res_date_source n, res_saved_att n))"

text \<open>
  A folder whose store answers the rich query with an empty collection and the legacy filter
  with two messages, one received inside the window of the examples and one after it.
\<close>

definition late_message :: message where
  "late_message = plain_message
     \<lparr>ReceivedTime := Has (Some \<lparr>wall = (2025, 8, 9, 8, 0, 0, 0), tzinfo = Some 0\<rparr>),
      InternetMessageID := Has ''<m2@lender.example>''\<rparr>"

definition no_items :: items where
  "no_items = Items \<lparr>Count = Has 0, Item = (\<lambda>i. Raises)\<rparr> (\<lambda>f. Raises) Raises"

definition two_items :: items where
  "two_items =
     Items \<lparr>Count = Has 2,
            Item = (\<lambda>i. if i = 1 then Returns late_message
                         else if i = 2 then Returns plain_message else Raises)\<rparr>
           (\<lambda>f. Raises) Raises"

definition store_items :: items where
  "store_items =
     Items \<lparr>Count = Has 2,
            Item = (\<lambda>i. if i = 1 then Returns late_message
                         else if i = 2 then Returns plain_message else Raises)\<rparr>
           (\<lambda>f. if startswith f ''@SQL='' then Returns no_items else Returns two_items)
           Raises"

definition policy_folder :: folder where
  "policy_folder = \<lparr>FolderItems = Has store_items\<rparr>"

definition window_since :: naive where
  "window_since = (2025, 8, 1, 0, 0, 0, 0)"

definition window_until :: naive where
  "window_until = (2025, 8, 7, 23, 59, 59, 0)"

text \<open>What a call of the resolver did: its \<^verbatim>\<open>Restrict\<close> calls and the count of its result.\<close>

definition resolved :: "py_error + items option \<times> restrict_call list \<Rightarrow> (int attr option \<times> restrict_call list) option" where
  "resolved r =
     (case r of
        Inl e \<Rightarrow> None
      | Inr (its, calls) \<Rightarrow> Some (map_option (\<lambda>c. Count (members c)) its, calls))"

definition fetched :: "py_error + saved_email list \<Rightarrow> (string option \<times> naive option \<times> naive option) list option" where
  "fetched r =
     (case r of
        Inl e \<Rightarrow> None
      | Inr recs \<Rightarrow> Some (map (\<lambda>r. (message_id r, raw_received r, received r)) recs))"

text \<open>A response that wraps a JSON object in prose, and the object.\<close>

definition wrapped_response :: string where
  "wrapped_response = ''Here is the result:'' @ [CHR 0x0A] @
     ''{'' @ [CHR 0x22] @ ''updates'' @ [CHR 0x22] @ '':[],'' @
     [CHR 0x22] @ ''meta'' @ [CHR 0x22] @ '':{}}'' @ [CHR 0x0A] @ ''Thanks''"

definition embedded_object :: string where
  "embedded_object = ''{'' @ [CHR 0x22] @ ''updates'' @ [CHR 0x22] @ '':[],'' @
     [CHR 0x22] @ ''meta'' @ [CHR 0x22] @ '':{}}''"

text \<open>
  A message sent and received in a zone ten hours ahead of UTC, and a message whose
  \<^verbatim>\<open>Date:\<close> header names an instant of the year 10000 at UTC.
\<close>

definition zoned_headers :: string where
  "zoned_headers = ''Date: Sat, 16 Aug 2025 05:00:00 +1000'' @ [CHR 0x0D, CHR 0x0A]"

definition zoned_message :: message where
  "zoned_message = plain_message
     \<lparr>ReceivedTime := Has (Some \<lparr>wall = (2025, 8, 5, 20, 0, 0, 0), tzinfo = Some 36000\<rparr>),
      PropertyAccessor := Has (\<lambda>tag. Returns zoned_headers)\<rparr>"

definition zoned_plain_message :: message where
  "zoned_plain_message = plain_message
     \<lparr>ReceivedTime := Has (Some \<lparr>wall = (2025, 8, 5, 20, 0, 0, 0), tzinfo = Some 36000\<rparr>)\<rparr>"

definition overflow_headers :: string where
  "overflow_headers = ''Date: Fri, 31 Dec 9999 23:59:59 -0100'' @ [CHR 0x0D, CHR 0x0A]"

definition overflow_message :: message where
  "overflow_message = plain_message\<lparr>PropertyAccessor := Has (\<lambda>tag. Returns overflow_headers)\<rparr>"


definition rec_A1 :: saved_email where
  "rec_A1 = \<lparr>txt_path = ''a1.txt'', attachments = [], received = Some (2025, 8, 10, 0, 0, 0, 0),
     message_id = Some ''A'', date_source = ''received_time'',
     raw_received = Some (2025, 8, 10, 0, 0, 0, 0)\<rparr>"

definition rec_A2 :: saved_email where
  "rec_A2 = \<lparr>txt_path = ''a2.txt'', attachments = [], received = Some (2025, 8, 12, 0, 0, 0, 0),
     message_id = Some ''A'', date_source = ''received_time'',
     raw_received = Some (2025, 8, 12, 0, 0, 0, 0)\<rparr>"

definition rec_anon :: saved_email where
  "rec_anon = \<lparr>txt_path = ''n.txt'', attachments = [], received = None,
     message_id = None, date_source = ''received_time'', raw_received = None\<rparr>"

definition rec_B :: saved_email where
  "rec_B = \<lparr>txt_path = ''b.txt'', attachments = [], received = Some (2025, 8, 3, 0, 0, 0, 0),
     message_id = Some ''B'', date_source = ''received_time'',
     raw_received = Some (2025, 8, 3, 0, 0, 0, 0)\<rparr>"

definition rec_C :: saved_email where
  "rec_C = \<lparr>txt_path = ''c.txt'', attachments = [], received = Some (2025, 8, 5, 0, 0, 0, 0),
     message_id = Some ''C'', date_source = ''received_time'',
     raw_received = Some (2025, 8, 5, 0, 0, 0, 0)\<rparr>"

definition rec_C' :: saved_email where
  "rec_C' = \<lparr>txt_path = ''c2.txt'', attachments = [], received = Some (2025, 8, 5, 0, 0, 0, 0),
     message_id = Some ''D'', date_source = ''header_date'',
     raw_received = Some (2025, 8, 6, 0, 0, 0, 0)\<rparr>"



section \<open>Deduplication\<close>

lemma nths_snoc_shift:
  "nths (x # xs) A = (if 0 \<in> A then [x] else []) @ nths xs {j. Suc j \<in> A}"
  by (simp add: nths_Cons)

lemma dedupe_loop_nths:
  "dedupe_loop unique deduped xs =
     deduped @ nths xs {i. i < length xs \<and>
        (falsy (message_id (xs ! i)) \<or>
         (the (message_id (xs ! i)) \<notin> dom unique \<and>
          (\<forall>j<i. message_id (xs ! j) \<noteq> message_id (xs ! i))))}"

proof (induction xs arbitrary: unique deduped)
  case Nil
  then show ?case by simp

next
  case (Cons r rs)
  define keep where "keep = (\<lambda>(u :: string \<rightharpoonup> bool) (ys :: saved_email list). {i. i < length ys \<and>
        (falsy (message_id (ys ! i)) \<or>
         (the (message_id (ys ! i)) \<notin> dom u \<and>
          (\<forall>j<i. message_id (ys ! j) \<noteq> message_id (ys ! i))))})"
  have IH: "\<And>u d. dedupe_loop u d rs = d @ nths rs (keep u rs)"
    unfolding keep_def by (rule Cons.IH)
  have split_all: "\<And>j. (\<forall>k<Suc j. message_id ((r # rs) ! k) \<noteq> message_id (rs ! j)) =
        (message_id r \<noteq> message_id (rs ! j) \<and> (\<forall>k<j. message_id (rs ! k) \<noteq> message_id (rs ! j)))"
    by (simp add: All_less_Suc2)
  have step: "nths (r # rs) (keep unique (r # rs)) =
        (if 0 \<in> keep unique (r # rs) then [r] else []) @ nths rs {j. Suc j \<in> keep unique (r # rs)}"
    by (rule nths_snoc_shift)
  have goal: "dedupe_loop unique deduped (r # rs) = deduped @ nths (r # rs) (keep unique (r # rs))"
  proof (cases "falsy (message_id r)")
    case True
    have tl: "{j. Suc j \<in> keep unique (r # rs)} = keep unique rs"
      unfolding keep_def using True by (auto simp: split_all)
    have hd: "0 \<in> keep unique (r # rs)"
      unfolding keep_def using True by simp
    have "dedupe_loop unique deduped (r # rs) = dedupe_loop unique (deduped @ [r]) rs"
      using True by simp
    also have "\<dots> = (deduped @ [r]) @ nths rs (keep unique rs)" by (rule IH)
    also have "\<dots> = deduped @ nths (r # rs) (keep unique (r # rs))"
      unfolding step tl using hd by simp
    finally show ?thesis .
  next
    case False
    note nf = False
    show ?thesis
    proof (cases "the (message_id r) \<in> dom unique")
      case True
      have tl: "{j. Suc j \<in> keep unique (r # rs)} = keep unique rs"
        unfolding keep_def using True by (auto simp: split_all)
      have hd: "0 \<notin> keep unique (r # rs)"
        unfolding keep_def using True nf by simp
      have "dedupe_loop unique deduped (r # rs) = dedupe_loop unique deduped rs"
        using True nf by simp
      also have "\<dots> = deduped @ nths rs (keep unique rs)" by (rule IH)
      also have "\<dots> = deduped @ nths (r # rs) (keep unique (r # rs))"
        unfolding step tl using hd by simp
      finally show ?thesis .
    next
      case False
      let ?u = "unique(the (message_id r) \<mapsto> True)"
      have neq: "\<And>j. \<not> falsy (message_id (rs ! j)) \<Longrightarrow>
            (message_id r \<noteq> message_id (rs ! j)) = (the (message_id (rs ! j)) \<noteq> the (message_id r))"
        using nf by (auto simp: falsy_def split: option.splits)
      have tl: "{j. Suc j \<in> keep unique (r # rs)} = keep ?u rs"
        unfolding keep_def using neq by (auto simp: split_all)
      have hd: "0 \<in> keep unique (r # rs)"
        unfolding keep_def using False by simp
      have "dedupe_loop unique deduped (r # rs) = dedupe_loop ?u (deduped @ [r]) rs"
        using False nf by simp
      also have "\<dots> = (deduped @ [r]) @ nths rs (keep ?u rs)" by (rule IH)
      also have "\<dots> = deduped @ nths (r # rs) (keep unique (r # rs))"
        unfolding step tl using hd by simp
      finally show ?thesis .
    qed
  qed
  show ?case using goal unfolding keep_def .

qed

text \<open>
  C5. Deduplication keeps exactly the records that have no identity (a missing or empty
  \<^verbatim>\<open>message_id\<close>) and, of the records with an identity, the first in input order for
  each identity; the survivors stay in input order. Two records with identity \<^verbatim>\<open>A\<close>
  leave one record, the earlier one.

\<close>

theorem dedupe_keeps_first_per_identity:
  "dedupe xs =
     nths xs {i. i < length xs \<and>
        (falsy (message_id (xs ! i)) \<or> (\<forall>j<i. message_id (xs ! j) \<noteq> message_id (xs ! i)))}"
  unfolding dedupe_def by (simp add: dedupe_loop_nths)

theorem dedupe_keeps_first_per_identity_witness:
  "dedupe [rec_A1, rec_anon, rec_A2, rec_anon] =
     nths [rec_A1, rec_anon, rec_A2, rec_anon] {i. i < length [rec_A1, rec_anon, rec_A2, rec_anon] \<and>
        (falsy (message_id ([rec_A1, rec_anon, rec_A2, rec_anon] ! i)) \<or>
         (\<forall>j<i. message_id ([rec_A1, rec_anon, rec_A2, rec_anon] ! j)
                  \<noteq> message_id ([rec_A1, rec_anon, rec_A2, rec_anon] ! i)))}
   \<and> dedupe [rec_A1, rec_anon, rec_A2, rec_anon] = [rec_A1, rec_anon, rec_anon]
   \<and> dedupe [rec_A1, rec_A2] = [rec_A1]"

proof -
  have "dedupe [rec_A1, rec_anon, rec_A2, rec_anon] = [rec_A1, rec_anon, rec_anon]"
    by (simp add: dedupe_def falsy_def rec_A1_def rec_A2_def rec_anon_def)
  moreover have "dedupe [rec_A1, rec_A2] = [rec_A1]"
    by (simp add: dedupe_def falsy_def rec_A1_def rec_A2_def)
  ultimately show ?thesis
    using dedupe_keeps_first_per_identity [of "[rec_A1, rec_anon, rec_A2, rec_anon]"] by simp

qed

section \<open>Ordering\<close>

text \<open>
  C6. The sorted list is a rearrangement of the surviving records, non-decreasing in the
  effective timestamp, where a record with no \<^verbatim>\<open>received\<close> value has the window's
  \<^verbatim>\<open>since\<close> as its effective timestamp; records with equal effective timestamps keep
  their relative order.

\<close>

theorem sort_by_received_sorted_stable:
  "sorted (map (received_key since) (sort_by_received since xs))
   \<and> mset (sort_by_received since xs) = mset xs
   \<and> (\<forall>k. filter (\<lambda>r. received_key since r = k) (sort_by_received since xs)
            = filter (\<lambda>r. received_key since r = k) xs)
   \<and> received_key since (r\<lparr>received := None\<rparr>) = since
   \<and> received_key since (r\<lparr>received := Some d\<rparr>) = d"

proof -
  have "\<forall>k. filter (\<lambda>r. received_key since r = k) (sort_key (received_key since) xs)
            = filter (\<lambda>r. received_key since r = k) xs"
    by (rule allI) (rule sort_key_stable)
  moreover have "sorted (map (received_key since) (sort_key (received_key since) xs))"
    by (rule sorted_sort_key)
  moreover have "mset (sort_key (received_key since) xs) = mset xs"
    by (rule mset_sort)
  moreover have "received_key since (r\<lparr>received := None\<rparr>) = since"
    and "received_key since (r\<lparr>received := Some d\<rparr>) = d"
    by (simp_all add: received_key_def)
  ultimately show ?thesis
    unfolding sort_by_received_def by blast

qed

theorem sort_by_received_sorted_stable_witness:
  "sort_by_received (2025, 8, 4, 0, 0, 0, 0) [rec_C, rec_anon, rec_C', rec_B]
     = [rec_B, rec_anon, rec_C, rec_C']
   \<and> sorted (map (received_key (2025, 8, 4, 0, 0, 0, 0))
        (sort_by_received (2025, 8, 4, 0, 0, 0, 0) [rec_C, rec_anon, rec_C', rec_B]))"

proof -
  have "sort_by_received (2025, 8, 4, 0, 0, 0, 0) [rec_C, rec_anon, rec_C', rec_B]
     = [rec_B, rec_anon, rec_C, rec_C']"
    by (simp add: sort_by_received_def received_key_def rec_B_def rec_C_def rec_C'_def rec_anon_def)
  then show ?thesis
    using sort_by_received_sorted_stable
      [of "(2025, 8, 4, 0, 0, 0, 0)" "[rec_C, rec_anon, rec_C', rec_B]" rec_anon "(0, 0, 0, 0, 0, 0, 0)"]
    by simp

qed

section \<open>Period bounds\<close>








section \<open>The normalizer: what a successful call returns\<close>

lemma save_mail_InrE:
  assumes "save_mail_and_attachments env msg outdir = Inr (n, evs)"
  obtains subj received' stamp body sender_name es where
    "subject_of msg = Inr subj"
    "receipt_time env msg = Inr received'"
    "strftime env ''%Y%m%d_%H%M%S'' received' = Some stamp"
    "getattr_d (Body msg) [] = Inr body"
    "can_write env (joinpath env outdir (stamp @ ''_'' @ safe_subject subj @ ''.txt''))"
    "getattr_d (SenderName msg) [] = Inr sender_name"
    "build_message_id env msg subj received' body = Inr (res_message_id n)"
    "save_attachments env outdir (stamp @ ''_'' @ safe_subject subj) msg = Inr (res_saved_att n, es)"
    "res_received n = received'"
    "res_chosen_date n = (case fst (header_date env msg) of None \<Rightarrow> received' | Some d \<Rightarrow> d)"
    "res_date_source n = snd (header_date env msg)"
  using assms
  unfolding save_mail_and_attachments_def bnd_def Let_def
  by (auto split: sum.splits option.splits if_splits prod.splits)

lemma receipt_time_source:
  "receipt_time env msg = Inr r \<Longrightarrow> to_naive_local env (receipt_source env msg) = Some r"
  unfolding receipt_time_def receipt_source_def bnd_def getattr_d_def
  by (auto split: attr.splits option.splits sum.splits)

lemma parse_header_date_empty: "parse_header_date_from_raw_headers env [] = Inr None"
  by (simp add: parse_header_date_from_raw_headers_def)

lemma parse_header_date_SomeD:
  assumes "parse_header_date_from_raw_headers env h = Inr (Some d)"
  shows "\<exists>line dt. find_date_line (splitlines h) = Inr (Some line) \<and> line \<noteq> []
           \<and> parsedate_to_datetime env line = Returns (Some dt)
           \<and> to_naive_local env (Some dt) = Some d"
  using assms
  unfolding parse_header_date_from_raw_headers_def bnd_def falsy_def
  by (auto split: if_splits sum.splits option.splits call.splits)

lemma header_date_cases:
  "(\<exists>h d. raw_header_block msg = Returns (Some h)
           \<and> parse_header_date_from_raw_headers env h = Inr (Some d)
           \<and> header_date env msg = (Some d, ''header_date''))
   \<or> ((\<nexists>h d. raw_header_block msg = Returns (Some h)
              \<and> parse_header_date_from_raw_headers env h = Inr (Some d))
       \<and> header_date env msg = (None, ''received_time''))"
  unfolding header_date_def falsy_def
  by (auto split: call.splits option.splits sum.splits simp: parse_header_date_empty)

lemma eval_plain:
  "save_mail_and_attachments utc_platform plain_message ''out'' =
   Inr (\<lparr>res_txt_path = ''out'' @ [CHR 0x5C] @ ''20250805_100000_Rate change.txt'',
         res_saved_att = [], res_received = (2025, 8, 5, 10, 0, 0, 0),
         res_message_id = ''<m1@lender.example>'',
         res_chosen_date = (2025, 8, 5, 10, 0, 0, 0),
         res_date_source = ''received_time''\<rparr>,
        [WroteText (''out'' @ [CHR 0x5C] @ ''20250805_100000_Rate change.txt'')
          (''Subject: Rate change'' @ [CHR 0x0A] @ ''From: Lender'' @ [CHR 0x0A] @
           ''Received: 2025-08-05 10:00:00'' @ [CHR 0x0A, CHR 0x0A] @ ''New rates apply.'')])"
  by code_simp

lemma canonical_timestamp_fallback:
  assumes "save_mail_and_attachments env msg outdir = Inr (n, evs)"
    and "\<nexists>h d. raw_header_block msg = Returns (Some h)
              \<and> parse_header_date_from_raw_headers env h = Inr (Some d)"
  shows "res_chosen_date n = res_received n \<and> res_date_source n = ''received_time''"
proof -
  from assms(1) obtain received' where
    r: "res_received n = received'"
    and c: "res_chosen_date n = (case fst (header_date env msg) of None \<Rightarrow> received' | Some d \<Rightarrow> d)"
    and s: "res_date_source n = snd (header_date env msg)"
    by (rule save_mail_InrE)
  from header_date_cases [of msg env] assms(2)
  have "header_date env msg = (None, ''received_time'')" by blast
  then show ?thesis using r c s by simp
qed

lemma returnedD:
  "returned r = Some (a, b, c, d, e) \<Longrightarrow>
   \<exists>n evs. r = Inr (n, evs) \<and> res_received n = a \<and> res_message_id n = b
     \<and> res_chosen_date n = c \<and> res_date_source n = d \<and> res_saved_att n = e"
  unfolding returned_def by (cases r) auto

lemma to_naive_local_value:
  "to_naive_local env (Some dt)
     = Some (if tzinfo dt = None then wall dt
             else (case astimezone_local env dt of Some l \<Rightarrow> l | None \<Rightarrow> wall dt))"
  by (simp add: to_naive_local_def split: option.splits)

lemma receipt_time_value:
  assumes "receipt_time env msg = Inr r"
  shows "\<exists>rt. receipt_source env msg = Some rt
           \<and> r = (if tzinfo rt = None then wall rt
                  else (case astimezone_local env rt of Some l \<Rightarrow> l | None \<Rightarrow> wall rt))"
proof -
  have t: "to_naive_local env (receipt_source env msg) = Some r"
    using assms by (rule receipt_time_source)
  then obtain rt where rt: "receipt_source env msg = Some rt"
    by (cases "receipt_source env msg") (simp_all add: to_naive_local_def)
  then have "Some r = Some (if tzinfo rt = None then wall rt
                  else (case astimezone_local env rt of Some l \<Rightarrow> l | None \<Rightarrow> wall rt))"
    using t to_naive_local_value [of env rt] by simp
  then show ?thesis using rt by blast
qed

lemma eval_zoned:
  "returned (save_mail_and_attachments utc_platform zoned_message ''out'') =
   Some ((2025, 8, 5, 10, 0, 0, 0), ''<m1@lender.example>'', (2025, 8, 15, 19, 0, 0, 0),
         ''header_date'', [])"
  by code_simp

lemma eval_zoned_plain:
  "returned (save_mail_and_attachments utc_platform zoned_plain_message ''out'') =
   Some ((2025, 8, 5, 10, 0, 0, 0), ''<m1@lender.example>'', (2025, 8, 5, 10, 0, 0, 0),
         ''received_time'', [])"
  by code_simp

lemma eval_overflow:
  "returned (save_mail_and_attachments utc_platform overflow_message ''out'') =
   Some ((2025, 8, 5, 10, 0, 0, 0), ''<m1@lender.example>'', (9999, 12, 31, 23, 59, 59, 0),
         ''header_date'', [])"
  by code_simp

lemma eval_zoned_parse:
  "parse_header_date_from_raw_headers utc_platform zoned_headers
     = Inr (Some (2025, 8, 15, 19, 0, 0, 0))"
  by code_simp

lemma eval_overflow_parse:
  "parse_header_date_from_raw_headers utc_platform overflow_headers
     = Inr (Some (9999, 12, 31, 23, 59, 59, 0))"
  by code_simp

lemma eval_astimezone:
  "astimezone_local utc_platform \<lparr>wall = (2025, 8, 16, 5, 0, 0, 0), tzinfo = Some 36000\<rparr>
     = Some (2025, 8, 15, 19, 0, 0, 0)
   \<and> astimezone_local utc_platform \<lparr>wall = (2025, 8, 5, 20, 0, 0, 0), tzinfo = Some 36000\<rparr>
     = Some (2025, 8, 5, 10, 0, 0, 0)
   \<and> astimezone_local utc_platform \<lparr>wall = (9999, 12, 31, 23, 59, 59, 0), tzinfo = Some (- 3600)\<rparr>
     = None
   \<and> utc_wall (9999, 12, 31, 23, 59, 59, 0) (- 3600) = (10000, 1, 1, 0, 59, 59, 0)"
  by code_simp

section \<open>The canonical timestamp\<close>

text \<open>
  C1, as the code has it. For a message that \<^verbatim>\<open>save_mail_and_attachments\<close> normalizes:
  when the raw header block is there and \<^verbatim>\<open>_parse_header_date_from_raw_headers\<close> parses
  a date from it, the source is \<^verbatim>\<open>header_date\<close> and the chosen date comes from the
  datetime \<^verbatim>\<open>parsedate_to_datetime\<close> gives for the first \<^verbatim>\<open>Date:\<close> line;
  otherwise the source is \<^verbatim>\<open>received_time\<close> and the chosen date is the receipt time,
  which comes from the store's \<^verbatim>\<open>ReceivedTime\<close>. In both cases the value is: the
  wall-clock fields of a datetime without a zone; the local wall-clock time
  \<^verbatim>\<open>astimezone()\<close> gives for a datetime with a zone; and, when \<^verbatim>\<open>astimezone()\<close>
  raises, the datetime's own wall-clock fields, not converted.
\<close>

theorem canonical_timestamp_policy:
  assumes "save_mail_and_attachments env msg outdir = Inr (n, evs)"
  shows "(\<forall>h d. raw_header_block msg = Returns (Some h)
                \<and> parse_header_date_from_raw_headers env h = Inr (Some d) \<longrightarrow>
            res_chosen_date n = d \<and> res_date_source n = ''header_date''
            \<and> (\<exists>line dt. find_date_line (splitlines h) = Inr (Some line)
                  \<and> parsedate_to_datetime env line = Returns (Some dt)
                  \<and> d = (if tzinfo dt = None then wall dt
                         else (case astimezone_local env dt of
                                 Some l \<Rightarrow> l
                               | None \<Rightarrow> wall dt))))
       \<and> ((\<nexists>h d. raw_header_block msg = Returns (Some h)
                  \<and> parse_header_date_from_raw_headers env h = Inr (Some d)) \<longrightarrow>
            res_chosen_date n = res_received n \<and> res_date_source n = ''received_time'')
       \<and> (\<exists>rt. receipt_source env msg = Some rt
             \<and> res_received n = (if tzinfo rt = None then wall rt
                                 else (case astimezone_local env rt of
                                         Some l \<Rightarrow> l
                                       | None \<Rightarrow> wall rt)))"
proof -
  from assms obtain received' where
    r: "receipt_time env msg = Inr received'" "res_received n = received'"
    and c: "res_chosen_date n = (case fst (header_date env msg) of None \<Rightarrow> received' | Some d \<Rightarrow> d)"
    and s: "res_date_source n = snd (header_date env msg)"
    by (rule save_mail_InrE)
  have third: "\<exists>rt. receipt_source env msg = Some rt
             \<and> res_received n = (if tzinfo rt = None then wall rt
                                 else (case astimezone_local env rt of
                                         Some l \<Rightarrow> l
                                       | None \<Rightarrow> wall rt))"
    using receipt_time_value [OF r(1)] r(2) by simp
  have first: "\<forall>h d. raw_header_block msg = Returns (Some h)
                \<and> parse_header_date_from_raw_headers env h = Inr (Some d) \<longrightarrow>
            res_chosen_date n = d \<and> res_date_source n = ''header_date''
            \<and> (\<exists>line dt. find_date_line (splitlines h) = Inr (Some line)
                  \<and> parsedate_to_datetime env line = Returns (Some dt)
                  \<and> d = (if tzinfo dt = None then wall dt
                         else (case astimezone_local env dt of
                                 Some l \<Rightarrow> l
                               | None \<Rightarrow> wall dt)))"
  proof (intro allI impI)
    fix h d
    assume a: "raw_header_block msg = Returns (Some h)
                \<and> parse_header_date_from_raw_headers env h = Inr (Some d)"
    from header_date_cases [of msg env] a
    have "\<exists>h' d'. raw_header_block msg = Returns (Some h')
           \<and> parse_header_date_from_raw_headers env h' = Inr (Some d')
           \<and> header_date env msg = (Some d', ''header_date'')" by blast
    then obtain h' d' where hd: "raw_header_block msg = Returns (Some h')"
      "parse_header_date_from_raw_headers env h' = Inr (Some d')"
      "header_date env msg = (Some d', ''header_date'')" by blast
    have "h' = h" using hd(1) a by simp
    then have "d' = d" using hd(2) a by simp
    then have hdr: "header_date env msg = (Some d, ''header_date'')" using hd(3) by simp
    have cd: "res_chosen_date n = d" using c hdr by simp
    have sd: "res_date_source n = ''header_date''" using s hdr by simp
    from parse_header_date_SomeD [of env h d] a obtain line dt where
      l: "find_date_line (splitlines h) = Inr (Some line)"
         "parsedate_to_datetime env line = Returns (Some dt)"
         "to_naive_local env (Some dt) = Some d" by blast
    have "Some d = Some (if tzinfo dt = None then wall dt
                         else (case astimezone_local env dt of
                                 Some l \<Rightarrow> l
                               | None \<Rightarrow> wall dt))"
      using l(3) to_naive_local_value [of env dt] by simp
    then have v: "d = (if tzinfo dt = None then wall dt
                         else (case astimezone_local env dt of
                                 Some l \<Rightarrow> l
                               | None \<Rightarrow> wall dt))" by simp
    have "\<exists>line dt. find_date_line (splitlines h) = Inr (Some line)
                  \<and> parsedate_to_datetime env line = Returns (Some dt)
                  \<and> d = (if tzinfo dt = None then wall dt
                         else (case astimezone_local env dt of
                                 Some l \<Rightarrow> l
                               | None \<Rightarrow> wall dt))"
      by (rule exI [of _ line], rule exI [of _ dt], rule conjI [OF l(1) conjI [OF l(2) v]])
    with cd sd show "res_chosen_date n = d \<and> res_date_source n = ''header_date''
            \<and> (\<exists>line dt. find_date_line (splitlines h) = Inr (Some line)
                  \<and> parsedate_to_datetime env line = Returns (Some dt)
                  \<and> d = (if tzinfo dt = None then wall dt
                         else (case astimezone_local env dt of
                                 Some l \<Rightarrow> l
                               | None \<Rightarrow> wall dt)))" by blast
  qed
  have second: "(\<nexists>h d. raw_header_block msg = Returns (Some h)
                  \<and> parse_header_date_from_raw_headers env h = Inr (Some d)) \<longrightarrow>
            res_chosen_date n = res_received n \<and> res_date_source n = ''received_time''"
    using canonical_timestamp_fallback [OF assms] by blast
  from first second third show ?thesis by (intro conjI)
qed

theorem canonical_timestamp_policy_witness:
  "(\<exists>n evs. save_mail_and_attachments utc_platform zoned_message ''out'' = Inr (n, evs)
        \<and> raw_header_block zoned_message = Returns (Some zoned_headers)
        \<and> parse_header_date_from_raw_headers utc_platform zoned_headers
             = Inr (Some (2025, 8, 15, 19, 0, 0, 0))
        \<and> res_chosen_date n = (2025, 8, 15, 19, 0, 0, 0) \<and> res_date_source n = ''header_date''
        \<and> res_received n = (2025, 8, 5, 10, 0, 0, 0))
   \<and> (\<exists>n evs. save_mail_and_attachments utc_platform zoned_plain_message ''out'' = Inr (n, evs)
        \<and> (\<nexists>h d. raw_header_block zoned_plain_message = Returns (Some h)
               \<and> parse_header_date_from_raw_headers utc_platform h = Inr (Some d))
        \<and> res_chosen_date n = (2025, 8, 5, 10, 0, 0, 0) \<and> res_date_source n = ''received_time'')
   \<and> parsedate_to_datetime utc_platform ''Sat, 16 Aug 2025 05:00:00 +1000''
        = Returns (Some \<lparr>wall = (2025, 8, 16, 5, 0, 0, 0), tzinfo = Some 36000\<rparr>)
   \<and> astimezone_local utc_platform \<lparr>wall = (2025, 8, 16, 5, 0, 0, 0), tzinfo = Some 36000\<rparr>
        = Some (2025, 8, 15, 19, 0, 0, 0)
   \<and> receipt_source utc_platform zoned_plain_message
        = Some \<lparr>wall = (2025, 8, 5, 20, 0, 0, 0), tzinfo = Some 36000\<rparr>
   \<and> astimezone_local utc_platform \<lparr>wall = (2025, 8, 5, 20, 0, 0, 0), tzinfo = Some 36000\<rparr>
        = Some (2025, 8, 5, 10, 0, 0, 0)"
proof -
  from returnedD [OF eval_zoned] obtain n1 evs1 where
    e1: "save_mail_and_attachments utc_platform zoned_message ''out'' = Inr (n1, evs1)"
    and r1: "res_received n1 = (2025, 8, 5, 10, 0, 0, 0)"
    by blast
  have b1: "raw_header_block zoned_message = Returns (Some zoned_headers)"
    by (simp add: raw_header_block_def zoned_message_def)
  from canonical_timestamp_policy [OF e1] b1 eval_zoned_parse
  have c1: "res_chosen_date n1 = (2025, 8, 15, 19, 0, 0, 0) \<and> res_date_source n1 = ''header_date''"
    by blast
  have A: "\<exists>n evs. save_mail_and_attachments utc_platform zoned_message ''out'' = Inr (n, evs)
        \<and> raw_header_block zoned_message = Returns (Some zoned_headers)
        \<and> parse_header_date_from_raw_headers utc_platform zoned_headers
             = Inr (Some (2025, 8, 15, 19, 0, 0, 0))
        \<and> res_chosen_date n = (2025, 8, 15, 19, 0, 0, 0) \<and> res_date_source n = ''header_date''
        \<and> res_received n = (2025, 8, 5, 10, 0, 0, 0)"
    by (rule exI [of _ n1], rule exI [of _ evs1],
        intro conjI e1 b1 eval_zoned_parse c1 [THEN conjunct1] c1 [THEN conjunct2] r1)
  from returnedD [OF eval_zoned_plain] obtain n2 evs2 where
    e2: "save_mail_and_attachments utc_platform zoned_plain_message ''out'' = Inr (n2, evs2)"
    and r2: "res_received n2 = (2025, 8, 5, 10, 0, 0, 0)"
    by blast
  have b2: "raw_header_block zoned_plain_message = Returns None"
    by (simp add: raw_header_block_def zoned_plain_message_def plain_message_def)
  then have nb: "\<nexists>h d. raw_header_block zoned_plain_message = Returns (Some h)
               \<and> parse_header_date_from_raw_headers utc_platform h = Inr (Some d)"
    by simp
  from canonical_timestamp_policy [OF e2] nb
  have c2: "res_chosen_date n2 = res_received n2 \<and> res_date_source n2 = ''received_time''"
    by blast
  then have c2': "res_chosen_date n2 = (2025, 8, 5, 10, 0, 0, 0)" using r2 by simp
  have B: "\<exists>n evs. save_mail_and_attachments utc_platform zoned_plain_message ''out'' = Inr (n, evs)
        \<and> (\<nexists>h d. raw_header_block zoned_plain_message = Returns (Some h)
               \<and> parse_header_date_from_raw_headers utc_platform h = Inr (Some d))
        \<and> res_chosen_date n = (2025, 8, 5, 10, 0, 0, 0) \<and> res_date_source n = ''received_time''"
    by (rule exI [of _ n2], rule exI [of _ evs2], intro conjI e2 nb c2' c2 [THEN conjunct2])
  have p: "parsedate_to_datetime utc_platform ''Sat, 16 Aug 2025 05:00:00 +1000''
        = Returns (Some \<lparr>wall = (2025, 8, 16, 5, 0, 0, 0), tzinfo = Some 36000\<rparr>)"
    by (simp add: utc_platform_def parsedate_model_def)
  have rs: "receipt_source utc_platform zoned_plain_message
        = Some \<lparr>wall = (2025, 8, 5, 20, 0, 0, 0), tzinfo = Some 36000\<rparr>"
    by (simp add: receipt_source_def zoned_plain_message_def)
  show ?thesis
    by (intro conjI A B p rs eval_astimezone [THEN conjunct1]
          eval_astimezone [THEN conjunct2, THEN conjunct1])
qed

text \<open>
  The \<^verbatim>\<open>Date:\<close> header of the message below parses to 9999-12-31 23:59:59 at one hour
  behind UTC. The local time of that instant is in the year 10000, so \<^verbatim>\<open>astimezone()\<close>
  raises, and the chosen date is the header's own wall-clock time with the zone dropped: it is not
  the parsed value converted to local time.
\<close>

theorem canonical_timestamp_unconverted_counterexample:
  "raw_header_block overflow_message = Returns (Some overflow_headers)
   \<and> parse_header_date_from_raw_headers utc_platform overflow_headers
        = Inr (Some (9999, 12, 31, 23, 59, 59, 0))
   \<and> parsedate_to_datetime utc_platform ''Fri, 31 Dec 9999 23:59:59 -0100''
        = Returns (Some \<lparr>wall = (9999, 12, 31, 23, 59, 59, 0), tzinfo = Some (- 3600)\<rparr>)
   \<and> utc_wall (9999, 12, 31, 23, 59, 59, 0) (- 3600) = (10000, 1, 1, 0, 59, 59, 0)
   \<and> astimezone_local utc_platform \<lparr>wall = (9999, 12, 31, 23, 59, 59, 0), tzinfo = Some (- 3600)\<rparr>
        = None
   \<and> (\<exists>n evs. save_mail_and_attachments utc_platform overflow_message ''out'' = Inr (n, evs)
         \<and> res_date_source n = ''header_date''
         \<and> res_chosen_date n = (9999, 12, 31, 23, 59, 59, 0))"
proof -
  have b: "raw_header_block overflow_message = Returns (Some overflow_headers)"
    by (simp add: raw_header_block_def overflow_message_def)
  have p: "parsedate_to_datetime utc_platform ''Fri, 31 Dec 9999 23:59:59 -0100''
        = Returns (Some \<lparr>wall = (9999, 12, 31, 23, 59, 59, 0), tzinfo = Some (- 3600)\<rparr>)"
    by (simp add: utc_platform_def parsedate_model_def)
  from returnedD [OF eval_overflow] obtain n evs where
    e: "save_mail_and_attachments utc_platform overflow_message ''out'' = Inr (n, evs)"
    and c: "res_chosen_date n = (9999, 12, 31, 23, 59, 59, 0)"
    and s: "res_date_source n = ''header_date''"
    by blast
  have E: "\<exists>n evs. save_mail_and_attachments utc_platform overflow_message ''out'' = Inr (n, evs)
         \<and> res_date_source n = ''header_date''
         \<and> res_chosen_date n = (9999, 12, 31, 23, 59, 59, 0)"
    by (rule exI [of _ n], rule exI [of _ evs], intro conjI e s c)
  show ?thesis
    by (intro conjI b eval_overflow_parse p E
          eval_astimezone [THEN conjunct2, THEN conjunct2, THEN conjunct1]
          eval_astimezone [THEN conjunct2, THEN conjunct2, THEN conjunct2])
qed


lemma eval_unstamped:
  "returned (save_mail_and_attachments utc_platform unstamped_message ''out'') =
   Some ((2025, 8, 20, 12, 0, 0, 0), ''<m1@lender.example>'', (2025, 8, 20, 12, 0, 0, 0),
         ''received_time'', [])"
  by code_simp

lemma eval_anonymous:
  "returned (save_mail_and_attachments utc_platform anonymous_message ''out'') =
   Some ((2025, 8, 5, 10, 0, 0, 0),
         ''4a4b8c330015ae85a3e8152e23505ca6a9b325a2efb37d9b663d394935f6aa13'',
         (2025, 8, 5, 10, 0, 0, 0), ''received_time'', [])"
  by code_simp

lemma eval_anonymous':
  "returned (save_mail_and_attachments utc_platform anonymous_message' ''elsewhere'') =
   Some ((2025, 8, 5, 10, 0, 0, 0),
         ''4a4b8c330015ae85a3e8152e23505ca6a9b325a2efb37d9b663d394935f6aa13'',
         (2025, 8, 5, 10, 0, 0, 0), ''received_time'', [])"
  by code_simp

lemma eval_redelivered:
  "returned (save_mail_and_attachments utc_platform redelivered_message ''out'') =
   Some ((2025, 8, 5, 10, 0, 0, 0),
         ''4a4b8c330015ae85a3e8152e23505ca6a9b325a2efb37d9b663d394935f6aa13'',
         (2025, 8, 15, 9, 0, 0, 0), ''header_date'', [])"
  by code_simp

lemma eval_redelivered':
  "returned (save_mail_and_attachments utc_platform redelivered_message' ''out'') =
   Some ((2025, 8, 6, 11, 0, 0, 0),
         ''bb22248342c16505fbfd79eb37406b02e57dd23c4b4b28ba680ef8870304e837'',
         (2025, 8, 15, 9, 0, 0, 0), ''header_date'', [])"
  by code_simp

section \<open>The date source\<close>

text \<open>
  C10. The date source a successful call returns is \<^verbatim>\<open>header_date\<close> or
  \<^verbatim>\<open>received_time\<close>, never \<^verbatim>\<open>synthetic\<close>. A message with no
  \<^verbatim>\<open>ReceivedTime\<close> attribute has the wall clock as its receipt time, and, when no header
  date is parsed, that is its chosen date, with the source \<^verbatim>\<open>received_time\<close>.
\<close>

theorem date_source_values:
  assumes "save_mail_and_attachments env msg outdir = Inr (n, evs)"
  shows "(res_date_source n = ''header_date'' \<or> res_date_source n = ''received_time'')
       \<and> res_date_source n \<noteq> ''synthetic''
       \<and> (ReceivedTime msg = Missing \<longrightarrow>
             res_received n = now env
             \<and> ((\<nexists>h d. raw_header_block msg = Returns (Some h)
                      \<and> parse_header_date_from_raw_headers env h = Inr (Some d)) \<longrightarrow>
                  res_chosen_date n = now env \<and> res_date_source n = ''received_time''))"
proof -
  from assms obtain received' where
    r: "receipt_time env msg = Inr received'" "res_received n = received'"
    and s: "res_date_source n = snd (header_date env msg)"
    by (rule save_mail_InrE)
  have src: "res_date_source n = ''header_date'' \<or> res_date_source n = ''received_time''"
    using header_date_cases [of msg env] s by auto
  then have syn: "res_date_source n \<noteq> ''synthetic''" by auto
  have absent: "res_received n = now env" if "ReceivedTime msg = Missing"
    using r that
    by (simp add: receipt_time_def getattr_d_def bnd_def to_naive_local_def naive_datetime_def)
  have fallback: "res_chosen_date n = res_received n \<and> res_date_source n = ''received_time''"
    if "\<nexists>h d. raw_header_block msg = Returns (Some h)
              \<and> parse_header_date_from_raw_headers env h = Inr (Some d)"
    using canonical_timestamp_fallback that assms by blast
  show ?thesis using src syn absent fallback by simp
qed

theorem date_source_values_witness:
  "\<exists>n evs.
     save_mail_and_attachments utc_platform unstamped_message ''out'' = Inr (n, evs)
     \<and> ReceivedTime unstamped_message = Missing
     \<and> (\<nexists>h d. raw_header_block unstamped_message = Returns (Some h)
            \<and> parse_header_date_from_raw_headers utc_platform h = Inr (Some d))
     \<and> res_received n = (2025, 8, 20, 12, 0, 0, 0)
     \<and> res_chosen_date n = (2025, 8, 20, 12, 0, 0, 0)
     \<and> res_date_source n = ''received_time''"
proof -
  from returnedD [OF eval_unstamped] obtain n evs where
    ev: "save_mail_and_attachments utc_platform unstamped_message ''out'' = Inr (n, evs)"
    by blast
  have m: "ReceivedTime unstamped_message = Missing"
    by (simp add: unstamped_message_def plain_message_def)
  have b: "raw_header_block unstamped_message = Returns None"
    by (simp add: raw_header_block_def unstamped_message_def plain_message_def)
  have nw: "now utc_platform = (2025, 8, 20, 12, 0, 0, 0)"
    by (simp add: utc_platform_def)
  from date_source_values [OF ev] m b nw
  have "res_received n = (2025, 8, 20, 12, 0, 0, 0)
     \<and> res_chosen_date n = (2025, 8, 20, 12, 0, 0, 0)
     \<and> res_date_source n = ''received_time''" by simp
  then show "\<exists>n evs.
     save_mail_and_attachments utc_platform unstamped_message ''out'' = Inr (n, evs)
     \<and> ReceivedTime unstamped_message = Missing
     \<and> (\<nexists>h d. raw_header_block unstamped_message = Returns (Some h)
            \<and> parse_header_date_from_raw_headers utc_platform h = Inr (Some d))
     \<and> res_received n = (2025, 8, 20, 12, 0, 0, 0)
     \<and> res_chosen_date n = (2025, 8, 20, 12, 0, 0, 0)
     \<and> res_date_source n = ''received_time''"
    using ev m b by auto
qed

section \<open>The identity of a message without identifiers\<close>

lemma build_message_id_fallback:
  assumes "build_message_id env msg subj received' body = Inr mid"
    and "falsy (getattr_quiet (InternetMessageID msg))"
    and "falsy (getattr_quiet (EntryID msg))"
  shows "\<exists>sender. sender_of msg = Inr sender
           \<and> mid = sha256_hexdigest (fingerprint_key subj sender received' body)"
  using assms unfolding build_message_id_def bnd_def Let_def
  by (auto split: sum.splits)

lemma fingerprint_key_prefix:
  "take 500 b1 = take 500 b2 \<Longrightarrow> fingerprint_key subj sender r b1 = fingerprint_key subj sender r b2"
  by (simp add: fingerprint_key_def)

lemma fingerprint_identity_of:
  assumes "save_mail_and_attachments env msg outdir = Inr (n, evs)"
    and "falsy (getattr_quiet (InternetMessageID msg))"
    and "falsy (getattr_quiet (EntryID msg))"
  shows "\<exists>subj sender body. subject_of msg = Inr subj \<and> sender_of msg = Inr sender
           \<and> getattr_d (Body msg) [] = Inr body
           \<and> res_message_id n
               = sha256_hexdigest (fingerprint_key subj sender (res_received n) body)"
proof -
  from assms(1) obtain subj received' body where
    f: "subject_of msg = Inr subj" "getattr_d (Body msg) [] = Inr body"
       "build_message_id env msg subj received' body = Inr (res_message_id n)"
       "res_received n = received'"
    by (rule save_mail_InrE)
  from build_message_id_fallback [OF f(3) assms(2,3)] f show ?thesis by blast
qed

text \<open>
  C3, as the code has it. A message with neither an \<^verbatim>\<open>InternetMessageID\<close> nor an
  \<^verbatim>\<open>EntryID\<close> gets as identity the SHA-256 hex digest of
  \<^verbatim>\<open>subject|sender|receipt time|first 500 characters of the body\<close>, where the receipt
  time is the naive local receipt timestamp (not the canonical one). Two such messages, or two
  runs on one message, that agree on subject, sender, receipt timestamp and the first 500 characters
  of the body get the same identity.
\<close>

theorem fingerprint_identity:
  assumes s1: "save_mail_and_attachments env1 m1 outdir1 = Inr (n1, evs1)"
    and s2: "save_mail_and_attachments env2 m2 outdir2 = Inr (n2, evs2)"
    and no1: "falsy (getattr_quiet (InternetMessageID m1))" "falsy (getattr_quiet (EntryID m1))"
    and no2: "falsy (getattr_quiet (InternetMessageID m2))" "falsy (getattr_quiet (EntryID m2))"
    and subj: "subject_of m1 = subject_of m2" and sender: "sender_of m1 = sender_of m2"
    and recv: "res_received n1 = res_received n2"
    and b1: "getattr_d (Body m1) [] = Inr b1" and b2: "getattr_d (Body m2) [] = Inr b2"
    and pre: "take 500 b1 = take 500 b2"
  shows "res_message_id n1 = res_message_id n2
       \<and> (\<exists>subj sender. subject_of m1 = Inr subj \<and> sender_of m1 = Inr sender
             \<and> res_message_id n1
                 = sha256_hexdigest (fingerprint_key subj sender (res_received n1) b1))"
proof -
  from fingerprint_identity_of [OF s1 no1] b1 obtain subj sender where
    i1: "subject_of m1 = Inr subj" "sender_of m1 = Inr sender"
        "res_message_id n1 = sha256_hexdigest (fingerprint_key subj sender (res_received n1) b1)"
    by auto
  from fingerprint_identity_of [OF s2 no2] b2 obtain subj' sender' where
    i2: "subject_of m2 = Inr subj'" "sender_of m2 = Inr sender'"
        "res_message_id n2 = sha256_hexdigest (fingerprint_key subj' sender' (res_received n2) b2)"
    by auto
  have "subj' = subj" "sender' = sender" using i1 i2 subj sender by simp_all
  then have "res_message_id n2 = sha256_hexdigest (fingerprint_key subj sender (res_received n1) b1)"
    using i2(3) recv fingerprint_key_prefix [OF pre] by simp
  then show ?thesis using i1 by auto
qed

theorem fingerprint_identity_witness:
  "\<exists>n1 evs1 n2 evs2.
     save_mail_and_attachments utc_platform anonymous_message ''out'' = Inr (n1, evs1)
   \<and> save_mail_and_attachments utc_platform anonymous_message' ''elsewhere'' = Inr (n2, evs2)
   \<and> falsy (getattr_quiet (InternetMessageID anonymous_message))
   \<and> falsy (getattr_quiet (EntryID anonymous_message))
   \<and> falsy (getattr_quiet (InternetMessageID anonymous_message'))
   \<and> falsy (getattr_quiet (EntryID anonymous_message'))
   \<and> subject_of anonymous_message = subject_of anonymous_message'
   \<and> sender_of anonymous_message = sender_of anonymous_message'
   \<and> res_received n1 = res_received n2
   \<and> getattr_d (Body anonymous_message) [] = Inr ''New rates apply.''
   \<and> getattr_d (Body anonymous_message') [] = Inr ''New rates apply.''
   \<and> res_message_id n1 = res_message_id n2
   \<and> res_message_id n1
        = ''4a4b8c330015ae85a3e8152e23505ca6a9b325a2efb37d9b663d394935f6aa13''"
proof -
  from returnedD [OF eval_anonymous] obtain n1 evs1 where
    e1: "save_mail_and_attachments utc_platform anonymous_message ''out'' = Inr (n1, evs1)"
    and r1: "res_received n1 = (2025, 8, 5, 10, 0, 0, 0)"
    and i1: "res_message_id n1
        = ''4a4b8c330015ae85a3e8152e23505ca6a9b325a2efb37d9b663d394935f6aa13''"
    by blast
  from returnedD [OF eval_anonymous'] obtain n2 evs2 where
    e2: "save_mail_and_attachments utc_platform anonymous_message' ''elsewhere'' = Inr (n2, evs2)"
    and r2: "res_received n2 = (2025, 8, 5, 10, 0, 0, 0)"
    by blast
  have f: "falsy (getattr_quiet (InternetMessageID anonymous_message))"
      "falsy (getattr_quiet (EntryID anonymous_message))"
      "falsy (getattr_quiet (InternetMessageID anonymous_message'))"
      "falsy (getattr_quiet (EntryID anonymous_message'))"
    by (simp_all add: falsy_def getattr_quiet_def anonymous_message_def anonymous_message'_def
          plain_message_def)
  have s: "subject_of anonymous_message = subject_of anonymous_message'"
      "sender_of anonymous_message = sender_of anonymous_message'"
    by (simp_all add: subject_of_def sender_of_def bnd_def getattr_d_def anonymous_message_def anonymous_message'_def
          plain_message_def)
  have b: "getattr_d (Body anonymous_message) [] = Inr ''New rates apply.''"
      "getattr_d (Body anonymous_message') [] = Inr ''New rates apply.''"
    by (simp_all add: getattr_d_def anonymous_message_def anonymous_message'_def plain_message_def)
  have r: "res_received n1 = res_received n2" using r1 r2 by simp
  from fingerprint_identity [OF e1 e2 f s r b refl]
  have "res_message_id n1 = res_message_id n2" by blast
  then show "\<exists>n1 evs1 n2 evs2.
     save_mail_and_attachments utc_platform anonymous_message ''out'' = Inr (n1, evs1)
   \<and> save_mail_and_attachments utc_platform anonymous_message' ''elsewhere'' = Inr (n2, evs2)
   \<and> falsy (getattr_quiet (InternetMessageID anonymous_message))
   \<and> falsy (getattr_quiet (EntryID anonymous_message))
   \<and> falsy (getattr_quiet (InternetMessageID anonymous_message'))
   \<and> falsy (getattr_quiet (EntryID anonymous_message'))
   \<and> subject_of anonymous_message = subject_of anonymous_message'
   \<and> sender_of anonymous_message = sender_of anonymous_message'
   \<and> res_received n1 = res_received n2
   \<and> getattr_d (Body anonymous_message) [] = Inr ''New rates apply.''
   \<and> getattr_d (Body anonymous_message') [] = Inr ''New rates apply.''
   \<and> res_message_id n1 = res_message_id n2
   \<and> res_message_id n1
        = ''4a4b8c330015ae85a3e8152e23505ca6a9b325a2efb37d9b663d394935f6aa13''"
    using e1 e2 f s r b i1 by blast
qed

text \<open>
  The identity does not follow the canonical timestamp: the two messages below have no
  identifiers and the same subject, sender, body and canonical timestamp (their
  \<^verbatim>\<open>Date:\<close> header), and were received a day apart. Their identities are the digests
  of two keys that differ in the receipt time, and they differ.
\<close>

theorem fingerprint_uses_receipt_time_counterexample:
  "(\<exists>n1 evs1 n2 evs2.
      save_mail_and_attachments utc_platform redelivered_message ''out'' = Inr (n1, evs1)
    \<and> save_mail_and_attachments utc_platform redelivered_message' ''out'' = Inr (n2, evs2)
    \<and> res_chosen_date n1 = (2025, 8, 15, 9, 0, 0, 0)
    \<and> res_chosen_date n2 = (2025, 8, 15, 9, 0, 0, 0)
    \<and> res_message_id n1
         = ''4a4b8c330015ae85a3e8152e23505ca6a9b325a2efb37d9b663d394935f6aa13''
    \<and> res_message_id n2
         = ''bb22248342c16505fbfd79eb37406b02e57dd23c4b4b28ba680ef8870304e837''
    \<and> res_message_id n1 \<noteq> res_message_id n2)
   \<and> subject_of redelivered_message = subject_of redelivered_message'
   \<and> sender_of redelivered_message = sender_of redelivered_message'
   \<and> Body redelivered_message = Body redelivered_message'
   \<and> InternetMessageID redelivered_message = Missing \<and> EntryID redelivered_message = Missing
   \<and> InternetMessageID redelivered_message' = Missing \<and> EntryID redelivered_message' = Missing"
proof -
  from returnedD [OF eval_redelivered] obtain n1 evs1 where
    e1: "save_mail_and_attachments utc_platform redelivered_message ''out'' = Inr (n1, evs1)"
    and c1: "res_chosen_date n1 = (2025, 8, 15, 9, 0, 0, 0)"
    and i1: "res_message_id n1
         = ''4a4b8c330015ae85a3e8152e23505ca6a9b325a2efb37d9b663d394935f6aa13''"
    by blast
  from returnedD [OF eval_redelivered'] obtain n2 evs2 where
    e2: "save_mail_and_attachments utc_platform redelivered_message' ''out'' = Inr (n2, evs2)"
    and c2: "res_chosen_date n2 = (2025, 8, 15, 9, 0, 0, 0)"
    and i2: "res_message_id n2
         = ''bb22248342c16505fbfd79eb37406b02e57dd23c4b4b28ba680ef8870304e837''"
    by blast
  have ne: "res_message_id n1 \<noteq> res_message_id n2" unfolding i1 i2 by simp
  have a: "\<exists>n1 evs1 n2 evs2.
      save_mail_and_attachments utc_platform redelivered_message ''out'' = Inr (n1, evs1)
    \<and> save_mail_and_attachments utc_platform redelivered_message' ''out'' = Inr (n2, evs2)
    \<and> res_chosen_date n1 = (2025, 8, 15, 9, 0, 0, 0)
    \<and> res_chosen_date n2 = (2025, 8, 15, 9, 0, 0, 0)
    \<and> res_message_id n1
         = ''4a4b8c330015ae85a3e8152e23505ca6a9b325a2efb37d9b663d394935f6aa13''
    \<and> res_message_id n2
         = ''bb22248342c16505fbfd79eb37406b02e57dd23c4b4b28ba680ef8870304e837''
    \<and> res_message_id n1 \<noteq> res_message_id n2"
    by (rule exI [of _ n1], rule exI [of _ evs1], rule exI [of _ n2], rule exI [of _ evs2],
        intro conjI e1 e2 c1 c2 i1 i2 ne)
  have b: "subject_of redelivered_message = subject_of redelivered_message'"
      "sender_of redelivered_message = sender_of redelivered_message'"
      "Body redelivered_message = Body redelivered_message'"
      "InternetMessageID redelivered_message = Missing" "EntryID redelivered_message = Missing"
      "InternetMessageID redelivered_message' = Missing" "EntryID redelivered_message' = Missing"
    by (simp_all add: subject_of_def sender_of_def bnd_def getattr_d_def redelivered_message_def
          redelivered_message'_def headed_message_def plain_message_def)
  show ?thesis by (intro conjI a b)
qed

lemma eval_plain_returned:
  "returned (save_mail_and_attachments utc_platform plain_message ''out'') =
   Some ((2025, 8, 5, 10, 0, 0, 0), ''<m1@lender.example>'', (2025, 8, 5, 10, 0, 0, 0),
         ''received_time'', [])"
  using eval_plain by (simp add: returned_def)


section \<open>Attachments\<close>

lemma save_attachments_loop_result:
  "save_attachments_loop env outdir base atts is saved evs = Inr (saved', evs')
   \<Longrightarrow> saved' = saved @ List.map_filter (persisted_path env outdir base atts) is"
proof (induction "is" arbitrary: saved evs)
  case Nil
  then show ?case by simp
next
  case (Cons i "is")
  from Cons.prems obtain att p ev where
    it: "Item atts i = Returns att"
    and sa: "save_attachment env outdir base att = Inr (p, ev)"
    and rest: "save_attachments_loop env outdir base atts is
                 (case p of None \<Rightarrow> saved | Some q \<Rightarrow> saved @ [q]) (evs @ ev) = Inr (saved', evs')"
    by (auto simp: bnd_def split: call.splits sum.splits prod.splits)
  have "saved' = (case p of None \<Rightarrow> saved | Some q \<Rightarrow> saved @ [q])
                   @ List.map_filter (persisted_path env outdir base atts) is"
    by (rule Cons.IH [OF rest])
  moreover have "persisted_path env outdir base atts i = p"
    using it sa by (simp add: persisted_path_def split: option.splits)
  ultimately show ?case by (cases p) simp_all
qed

lemma save_attachment_saved_iff:
  "save_attachment env outdir base att = Inr (Some p, ev) \<longleftrightarrow>
      (\<exists>name. FileName att = Has name \<and> name \<noteq> []
         \<and> lower (snd (splitext (path_seps env) name)) \<in> set allowed_exts
         \<and> p = joinpath env outdir (base @ ''_'' @ name) \<and> SaveAsFile att p
         \<and> ev = [SavedAttachment name p])"
  unfolding save_attachment_def bnd_def getattr_none_def falsy_def Let_def
  by (auto split: attr.splits)

lemma save_attachment_skipped:
  "FileName att = Has name \<Longrightarrow> name \<noteq> [] \<Longrightarrow>
   lower (snd (splitext (path_seps env) name)) \<notin> set allowed_exts \<Longrightarrow>
   save_attachment env outdir base att
     = Inr (None, [SkippedAttachment name (snd (splitext (path_seps env) name))])"
  unfolding save_attachment_def bnd_def getattr_none_def falsy_def Let_def
  by simp

lemma save_mail_saved_att:
  assumes "save_mail_and_attachments env msg outdir = Inr (n, evs)"
    and "Attachments msg = Has atts"
  shows "\<exists>stamp subj. strftime env ''%Y%m%d_%H%M%S'' (res_received n) = Some stamp
           \<and> subject_of msg = Inr subj
           \<and> res_saved_att n =
               List.map_filter (persisted_path env outdir (stamp @ ''_'' @ safe_subject subj) atts)
                 [1..attachment_count atts]"
proof -
  from assms(1) obtain subj received' stamp es where
    f: "subject_of msg = Inr subj" "strftime env ''%Y%m%d_%H%M%S'' received' = Some stamp"
       "save_attachments env outdir (stamp @ ''_'' @ safe_subject subj) msg = Inr (res_saved_att n, es)"
       "res_received n = received'"
    by (rule save_mail_InrE)
  from f(3) assms(2)
  have "save_attachments_loop env outdir (stamp @ ''_'' @ safe_subject subj) atts
          [1..attachment_count atts] [] [] = Inr (res_saved_att n, es)"
    by (simp add: save_attachments_def bnd_def getattr_none_def)
  from save_attachments_loop_result [OF this] f show ?thesis by simp
qed

lemma whitelist_examples:
  "lower (snd (splitext [CHR 0x5C, CHR ''/''] ''report.PDF'')) \<in> set allowed_exts
   \<and> lower (snd (splitext [CHR 0x5C, CHR ''/''] ''report.pdf'')) \<in> set allowed_exts
   \<and> lower (snd (splitext [CHR 0x5C, CHR ''/''] ''report.exe'')) \<notin> set allowed_exts"
  by code_simp

lemma eval_attached:
  "returned (save_mail_and_attachments utc_platform attached_message ''out'') =
   Some ((2025, 8, 5, 10, 0, 0, 0), ''<m1@lender.example>'', (2025, 8, 5, 10, 0, 0, 0),
         ''received_time'',
         [''out'' @ [CHR 0x5C] @ ''20250805_100000_Rate change_report.PDF'',
          ''out'' @ [CHR 0x5C] @ ''20250805_100000_Rate change_report.pdf''])"
  by code_simp

lemma eval_unsaved:
  "returned (save_mail_and_attachments utc_platform unsaved_message ''out'') =
   Some ((2025, 8, 5, 10, 0, 0, 0), ''<m1@lender.example>'', (2025, 8, 5, 10, 0, 0, 0),
         ''received_time'', [])"
  by code_simp

text \<open>
  C9, as the code has it. An attachment is saved exactly when it has a non-empty file name whose
  extension, in lower case, is in the whitelist and the store's \<^verbatim>\<open>SaveAsFile\<close> succeeds;
  the path is the output directory joined with the base name, an underscore and the attachment's
  name. An attachment whose extension is not in the whitelist is skipped with a log entry and
  the call goes on; the saved attachments of a message are the saved ones of its collection, in
  order. \<^verbatim>\<open>report.PDF\<close> and \<^verbatim>\<open>report.pdf\<close> pass the whitelist,
  \<^verbatim>\<open>report.exe\<close> does not.
\<close>

theorem attachment_whitelist:
  "(save_attachment env outdir base att = Inr (Some p, ev) \<longleftrightarrow>
      (\<exists>name. FileName att = Has name \<and> name \<noteq> []
         \<and> lower (snd (splitext (path_seps env) name)) \<in> set allowed_exts
         \<and> p = joinpath env outdir (base @ ''_'' @ name) \<and> SaveAsFile att p
         \<and> ev = [SavedAttachment name p]))
   \<and> (FileName att = Has name \<and> name \<noteq> []
        \<and> lower (snd (splitext (path_seps env) name)) \<notin> set allowed_exts \<longrightarrow>
        save_attachment env outdir base att
          = Inr (None, [SkippedAttachment name (snd (splitext (path_seps env) name))]))
   \<and> (save_mail_and_attachments env msg outdir = Inr (n, evs) \<and> Attachments msg = Has atts \<longrightarrow>
        (\<exists>stamp subj. strftime env ''%Y%m%d_%H%M%S'' (res_received n) = Some stamp
           \<and> subject_of msg = Inr subj
           \<and> res_saved_att n =
               List.map_filter (persisted_path env outdir (stamp @ ''_'' @ safe_subject subj) atts)
                 [1..attachment_count atts]))
   \<and> lower (snd (splitext [CHR 0x5C, CHR ''/''] ''report.PDF'')) \<in> set allowed_exts
   \<and> lower (snd (splitext [CHR 0x5C, CHR ''/''] ''report.pdf'')) \<in> set allowed_exts
   \<and> lower (snd (splitext [CHR 0x5C, CHR ''/''] ''report.exe'')) \<notin> set allowed_exts"
  using save_attachment_saved_iff [of env outdir base att p ev]
        save_attachment_skipped [of att name env outdir base]
        save_mail_saved_att [of env msg outdir n evs atts]
        whitelist_examples
  by blast

theorem attachment_whitelist_witness:
  "\<exists>n evs.
     save_mail_and_attachments utc_platform attached_message ''out'' = Inr (n, evs)
   \<and> Attachments attached_message = Has three_attachments
   \<and> res_saved_att n = [''out'' @ [CHR 0x5C] @ ''20250805_100000_Rate change_report.PDF'',
                        ''out'' @ [CHR 0x5C] @ ''20250805_100000_Rate change_report.pdf'']
   \<and> (\<exists>stamp subj.
         res_saved_att n =
           List.map_filter (persisted_path utc_platform ''out''
                              (stamp @ ''_'' @ safe_subject subj) three_attachments)
             [1..attachment_count three_attachments])
   \<and> FileName (saving ''report.exe'') = Has ''report.exe''
   \<and> lower (snd (splitext (path_seps utc_platform) ''report.exe'')) \<notin> set allowed_exts
   \<and> save_attachment utc_platform ''out'' ''b'' (saving ''report.exe'')
        = Inr (None, [SkippedAttachment ''report.exe'' ''.exe''])"
proof -
  from returnedD [OF eval_attached] obtain n evs where
    ev: "save_mail_and_attachments utc_platform attached_message ''out'' = Inr (n, evs)"
    and sv: "res_saved_att n = [''out'' @ [CHR 0x5C] @ ''20250805_100000_Rate change_report.PDF'',
                        ''out'' @ [CHR 0x5C] @ ''20250805_100000_Rate change_report.pdf'']"
    by blast
  have at: "Attachments attached_message = Has three_attachments"
    by (simp add: attached_message_def)
  have fn: "FileName (saving ''report.exe'') = Has ''report.exe''"
    by (simp add: saving_def)
  have ps: "path_seps utc_platform = [CHR 0x5C, CHR ''/'']"
    by (simp add: utc_platform_def)
  have ex: "snd (splitext [CHR 0x5C, CHR ''/''] ''report.exe'') = ''.exe''"
    by code_simp
  note t = attachment_whitelist [of "utc_platform" "''out''" "''b''" "saving ''report.exe''"
             "[]" "[]" "''report.exe''" attached_message n evs three_attachments]
  from t ev at have m: "\<exists>stamp subj.
         res_saved_att n =
           List.map_filter (persisted_path utc_platform ''out''
                              (stamp @ ''_'' @ safe_subject subj) three_attachments)
             [1..attachment_count three_attachments]"
    by blast
  from t have nw: "lower (snd (splitext (path_seps utc_platform) ''report.exe'')) \<notin> set allowed_exts"
    unfolding ps by blast
  from t fn nw
  have sk: "save_attachment utc_platform ''out'' ''b'' (saving ''report.exe'')
        = Inr (None, [SkippedAttachment ''report.exe'' ''.exe''])"
    unfolding ps ex by simp
  show "\<exists>n evs.
     save_mail_and_attachments utc_platform attached_message ''out'' = Inr (n, evs)
   \<and> Attachments attached_message = Has three_attachments
   \<and> res_saved_att n = [''out'' @ [CHR 0x5C] @ ''20250805_100000_Rate change_report.PDF'',
                        ''out'' @ [CHR 0x5C] @ ''20250805_100000_Rate change_report.pdf'']
   \<and> (\<exists>stamp subj.
         res_saved_att n =
           List.map_filter (persisted_path utc_platform ''out''
                              (stamp @ ''_'' @ safe_subject subj) three_attachments)
             [1..attachment_count three_attachments])
   \<and> FileName (saving ''report.exe'') = Has ''report.exe''
   \<and> lower (snd (splitext (path_seps utc_platform) ''report.exe'')) \<notin> set allowed_exts
   \<and> save_attachment utc_platform ''out'' ''b'' (saving ''report.exe'')
        = Inr (None, [SkippedAttachment ''report.exe'' ''.exe''])"
    using ev at sv m fn nw sk by blast
qed

text \<open>
  An attachment named \<^verbatim>\<open>report.pdf\<close> passes the whitelist and is not persisted when
  \<^verbatim>\<open>SaveAsFile\<close> raises: the failure is logged and the message is still normalized.
\<close>

theorem attachment_save_failure_counterexample:
  "lower (snd (splitext [CHR 0x5C, CHR ''/''] ''report.pdf'')) \<in> set allowed_exts
   \<and> Item unsaved_attachment 1 = Returns (not_saving ''report.pdf'')
   \<and> FileName (not_saving ''report.pdf'') = Has ''report.pdf''
   \<and> (save_attachment utc_platform ''out'' ''b'' (not_saving ''report.pdf'')
         = Inr (None, [SaveFailed ''report.pdf'']))
   \<and> (\<exists>n evs.
         save_mail_and_attachments utc_platform unsaved_message ''out'' = Inr (n, evs)
         \<and> res_saved_att n = [])"
proof -
  have a: "lower (snd (splitext [CHR 0x5C, CHR ''/''] ''report.pdf'')) \<in> set allowed_exts"
    using whitelist_examples by blast
  have b: "Item unsaved_attachment 1 = Returns (not_saving ''report.pdf'')"
      "FileName (not_saving ''report.pdf'') = Has ''report.pdf''"
    by (simp_all add: unsaved_attachment_def not_saving_def)
  have c: "save_attachment utc_platform ''out'' ''b'' (not_saving ''report.pdf'')
         = Inr (None, [SaveFailed ''report.pdf''])"
    by code_simp
  have d: "\<exists>n evs.
         save_mail_and_attachments utc_platform unsaved_message ''out'' = Inr (n, evs)
         \<and> res_saved_att n = []"
    using returnedD [OF eval_unsaved] by blast
  from a b c d show ?thesis by blast
qed


section \<open>The range query resolver\<close>

lemma mapi_fallback_calls:
  "mapi_fallback env its since_dt until_dt calls = Inr (res, calls') \<Longrightarrow>
   \<exists>m. calls' = calls @ [MapiRestrict m]"
  unfolding mapi_fallback_def Let_def
  by (auto split: option.splits call.splits prod.splits)

lemma dasl_step_kept:
  assumes "Restrict its dasl = Returns filtered"
    and "Count (members filtered) = Failing \<or> (\<exists>k. Count (members filtered) = Has k \<and> k > 0)"
  shows "dasl_step env its since_dt until_dt dasl = Inr (Some filtered, [DaslRestrict dasl])"
  using assms unfolding dasl_step_def by auto

lemma dasl_step_fallback:
  assumes "Restrict its dasl = Raises
           \<or> (\<exists>filtered. Restrict its dasl = Returns filtered
                 \<and> (Count (members filtered) = Missing
                      \<or> (\<exists>k. Count (members filtered) = Has k \<and> k \<le> 0)))"
  shows "dasl_step env its since_dt until_dt dasl
           = mapi_fallback env its since_dt until_dt [DaslRestrict dasl]"
  using assms unfolding dasl_step_def by auto

lemma dasl_step_cases:
  "(\<exists>filtered. Restrict its dasl = Returns filtered
       \<and> (Count (members filtered) = Failing \<or> (\<exists>k. Count (members filtered) = Has k \<and> k > 0)))
   \<or> (Restrict its dasl = Raises
       \<or> (\<exists>filtered. Restrict its dasl = Returns filtered
             \<and> (Count (members filtered) = Missing
                  \<or> (\<exists>k. Count (members filtered) = Has k \<and> k \<le> 0))))"
proof (cases "Restrict its dasl")
  case Raises
  then show ?thesis by simp
next
  case (Returns filtered)
  then show ?thesis
    by (cases "Count (members filtered)") (auto simp: not_less)
qed

lemma restrict_items_range_InrE:
  assumes "restrict_items_range env fld since_dt until_dt = Inr (res, calls)"
    and "FolderItems fld = Has items0"
  obtains dasl_since dasl_until where
    "strftime2 env ''%Y-%m-%d %H:%M:%S'' since_dt until_dt = Some (dasl_since, dasl_until)"
    "dasl_step env (sorted_items items0) since_dt until_dt (dasl_filter dasl_since dasl_until)
       = Inr (res, calls)"
  using assms unfolding restrict_items_range_def bnd_def getattr_none_def
  by (auto split: option.splits prod.splits)

lemma eval_policy_folder:
  "resolved (restrict_items_range utc_platform policy_folder window_since window_until) =
   Some (Some (Has 2),
         [DaslRestrict (dasl_filter ''2025-08-01 00:00:00'' ''2025-08-07 23:59:59''),
          MapiRestrict (mapi_filter ''08/01/2025 12:00 AM'' ''08/07/2025 11:59 PM'')])"
  by code_simp

lemma resolvedD:
  "resolved r = Some (c, calls) \<Longrightarrow>
   \<exists>its. r = Inr (its, calls) \<and> map_option (\<lambda>c. Count (members c)) its = c"
  unfolding resolved_def by (cases r) auto

text \<open>
  C4, as the code has it. The resolver first makes the rich (DASL) \<^verbatim>\<open>Restrict\<close> call.
  When that call returns a collection whose \<^verbatim>\<open>Count\<close> is positive, or whose
  \<^verbatim>\<open>Count\<close> cannot be read, that collection is returned and no other
  \<^verbatim>\<open>Restrict\<close> call is made. The legacy (MAPI) call is made exactly when the rich
  call raises or returns a collection that reports no count or a count that is not positive.
\<close>

theorem restrict_fallback_order:
  assumes "restrict_items_range env fld since_dt until_dt = Inr (res, calls)"
    and "FolderItems fld = Has items0"
  shows "\<exists>dasl_since dasl_until.
           strftime2 env ''%Y-%m-%d %H:%M:%S'' since_dt until_dt = Some (dasl_since, dasl_until)
         \<and> (\<exists>rest. calls = DaslRestrict (dasl_filter dasl_since dasl_until) # rest)
         \<and> ((\<exists>m. MapiRestrict m \<in> set calls) \<longleftrightarrow>
              (Restrict (sorted_items items0) (dasl_filter dasl_since dasl_until) = Raises
               \<or> (\<exists>filtered.
                     Restrict (sorted_items items0) (dasl_filter dasl_since dasl_until) = Returns filtered
                   \<and> (Count (members filtered) = Missing
                        \<or> (\<exists>k. Count (members filtered) = Has k \<and> k \<le> 0)))))
         \<and> (\<forall>filtered.
               Restrict (sorted_items items0) (dasl_filter dasl_since dasl_until) = Returns filtered
               \<and> (Count (members filtered) = Failing
                    \<or> (\<exists>k. Count (members filtered) = Has k \<and> k > 0))
               \<longrightarrow> res = Some filtered
                    \<and> calls = [DaslRestrict (dasl_filter dasl_since dasl_until)])"
proof -
  from assms obtain dasl_since dasl_until where
    fmt: "strftime2 env ''%Y-%m-%d %H:%M:%S'' since_dt until_dt = Some (dasl_since, dasl_until)"
    and step: "dasl_step env (sorted_items items0) since_dt until_dt (dasl_filter dasl_since dasl_until)
       = Inr (res, calls)"
    by (rule restrict_items_range_InrE)
  let ?its = "sorted_items items0"
  let ?dasl = "dasl_filter dasl_since dasl_until"
  let ?kept = "\<exists>filtered. Restrict ?its ?dasl = Returns filtered
       \<and> (Count (members filtered) = Failing \<or> (\<exists>k. Count (members filtered) = Has k \<and> k > 0))"
  let ?fell = "Restrict ?its ?dasl = Raises
       \<or> (\<exists>filtered. Restrict ?its ?dasl = Returns filtered
             \<and> (Count (members filtered) = Missing
                  \<or> (\<exists>k. Count (members filtered) = Has k \<and> k \<le> 0)))"
  have kept: "res = Some filtered \<and> calls = [DaslRestrict ?dasl]"
    if "Restrict ?its ?dasl = Returns filtered"
       "Count (members filtered) = Failing \<or> (\<exists>k. Count (members filtered) = Has k \<and> k > 0)"
    for filtered
    using dasl_step_kept [OF that, of env since_dt until_dt] step by simp
  have fell: "\<exists>m. calls = [DaslRestrict ?dasl, MapiRestrict m]" if ?fell
    using dasl_step_fallback [OF that, of env since_dt until_dt] step
          mapi_fallback_calls [of env ?its since_dt until_dt "[DaslRestrict ?dasl]" res calls]
    by auto
  have excl: "\<not> ?fell" if ?kept
    using that by auto
  have first: "\<exists>rest. calls = DaslRestrict ?dasl # rest"
    using dasl_step_cases [of ?its ?dasl] kept fell by blast
  have iff: "(\<exists>m. MapiRestrict m \<in> set calls) \<longleftrightarrow> ?fell"
  proof
    assume m: "\<exists>m. MapiRestrict m \<in> set calls"
    show ?fell
    proof (rule ccontr)
      assume "\<not> ?fell"
      with dasl_step_cases [of ?its ?dasl] have ?kept by blast
      then have "calls = [DaslRestrict ?dasl]" using kept by blast
      with m show False by simp
    qed
  next
    assume ?fell
    from fell [OF this] show "\<exists>m. MapiRestrict m \<in> set calls" by auto
  qed
  from fmt first iff kept show ?thesis by blast
qed

theorem restrict_fallback_order_witness:
  "\<exists>res calls.
     restrict_items_range utc_platform policy_folder window_since window_until
       = Inr (res, calls)
   \<and> FolderItems policy_folder = Has store_items
   \<and> (\<exists>dasl_since dasl_until rest.
         calls = DaslRestrict (dasl_filter dasl_since dasl_until) # rest
       \<and> ((\<exists>m. MapiRestrict m \<in> set calls) \<longleftrightarrow>
            (Restrict (sorted_items store_items) (dasl_filter dasl_since dasl_until) = Raises
             \<or> (\<exists>filtered.
                   Restrict (sorted_items store_items) (dasl_filter dasl_since dasl_until)
                     = Returns filtered
                 \<and> (Count (members filtered) = Missing
                      \<or> (\<exists>k. Count (members filtered) = Has k \<and> k \<le> 0))))))
   \<and> calls = [DaslRestrict (dasl_filter ''2025-08-01 00:00:00'' ''2025-08-07 23:59:59''),
              MapiRestrict (mapi_filter ''08/01/2025 12:00 AM'' ''08/07/2025 11:59 PM'')]"
proof -
  from resolvedD [OF eval_policy_folder] obtain res where
    ev: "restrict_items_range utc_platform policy_folder window_since window_until
       = Inr (res, [DaslRestrict (dasl_filter ''2025-08-01 00:00:00'' ''2025-08-07 23:59:59''),
              MapiRestrict (mapi_filter ''08/01/2025 12:00 AM'' ''08/07/2025 11:59 PM'')])"
    by blast
  have fi: "FolderItems policy_folder = Has store_items"
    by (simp add: policy_folder_def)
  from restrict_fallback_order [OF ev fi] ev fi
  show "\<exists>res calls.
     restrict_items_range utc_platform policy_folder window_since window_until
       = Inr (res, calls)
   \<and> FolderItems policy_folder = Has store_items
   \<and> (\<exists>dasl_since dasl_until rest.
         calls = DaslRestrict (dasl_filter dasl_since dasl_until) # rest
       \<and> ((\<exists>m. MapiRestrict m \<in> set calls) \<longleftrightarrow>
            (Restrict (sorted_items store_items) (dasl_filter dasl_since dasl_until) = Raises
             \<or> (\<exists>filtered.
                   Restrict (sorted_items store_items) (dasl_filter dasl_since dasl_until)
                     = Returns filtered
                 \<and> (Count (members filtered) = Missing
                      \<or> (\<exists>k. Count (members filtered) = Has k \<and> k \<le> 0))))))
   \<and> calls = [DaslRestrict (dasl_filter ''2025-08-01 00:00:00'' ''2025-08-07 23:59:59''),
              MapiRestrict (mapi_filter ''08/01/2025 12:00 AM'' ''08/07/2025 11:59 PM'')]"
    by blast
qed

text \<open>
  The rich restriction of the folder below succeeds without an error and returns an empty
  collection; the legacy filter is attempted all the same, and it is its result, with two
  messages, that is returned.
\<close>

theorem restrict_legacy_after_empty_counterexample:
  "Restrict (sorted_items store_items) (dasl_filter ''2025-08-01 00:00:00'' ''2025-08-07 23:59:59'')
     = Returns no_items
   \<and> Count (members no_items) = Has 0
   \<and> (
         resolved (restrict_items_range utc_platform policy_folder window_since window_until)
         = Some (Some (Has 2),
             [DaslRestrict (dasl_filter ''2025-08-01 00:00:00'' ''2025-08-07 23:59:59''),
              MapiRestrict (mapi_filter ''08/01/2025 12:00 AM'' ''08/07/2025 11:59 PM'')]))"
proof -
  have "Restrict (sorted_items store_items)
          (dasl_filter ''2025-08-01 00:00:00'' ''2025-08-07 23:59:59'') = Returns no_items"
    by (simp add: sorted_items_def store_items_def dasl_filter_def startswith_def)
  moreover have "Count (members no_items) = Has 0"
    by (simp add: no_items_def)
  ultimately show ?thesis using eval_policy_folder by blast
qed


lemma eval_local_late:
  "to_naive_local utc_platform (Some \<lparr>wall = (2025, 8, 9, 8, 0, 0, 0), tzinfo = Some 0\<rparr>)
     = Some (2025, 8, 9, 8, 0, 0, 0)"
  by code_simp

lemma eval_local_early:
  "to_naive_local utc_platform (Some \<lparr>wall = (2025, 8, 5, 10, 0, 0, 0), tzinfo = Some 0\<rparr>)
     = Some (2025, 8, 5, 10, 0, 0, 0)"
  by code_simp

section \<open>The client-side window filter\<close>

lemma receipt_time_Has:
  "ReceivedTime msg = Has rt \<Longrightarrow>
   receipt_time env msg
     = (case to_naive_local env rt of None \<Rightarrow> Inl AttributeError | Some r \<Rightarrow> Inr r)"
  by (simp add: receipt_time_def getattr_d_def bnd_def)

lemma to_naive_local_None: "to_naive_local env None = None"
  by (simp add: to_naive_local_def)

lemma process_item_out_of_window:
  "process_item env outdir since until msg = OutOfWindow d \<longleftrightarrow>
     (\<exists>rt. ReceivedTime msg = Has rt \<and> to_naive_local env rt = Some d
           \<and> (d < since \<or> until < d))"
  unfolding process_item_def getattr_none_def
  by (cases "ReceivedTime msg")
     (auto simp: to_naive_local_None split: option.splits sum.splits prod.splits)

lemma process_item_in_window:
  assumes "ReceivedTime msg = Has rt" and "to_naive_local env rt = Some d"
    and "since \<le> d" and "d \<le> until"
  shows "process_item env outdir since until msg
           = (case save_mail_and_attachments env msg outdir of
                Inl e \<Rightarrow> ItemFailed e
              | Inr (n, evs) \<Rightarrow> Saved (saved_record n) evs)"
proof -
  have "\<not> (d < since \<or> until < d)" using assms(3,4) by (simp add: not_less)
  then show ?thesis
    using assms(1,2) unfolding process_item_def getattr_none_def by simp
qed

lemma process_item_Saved:
  assumes "process_item env outdir since until msg = Saved r evs"
  shows "\<exists>d. raw_received r = Some d \<and> since \<le> d \<and> d \<le> until"
proof -
  obtain rt where rt: "ReceivedTime msg = Has rt"
    using assms unfolding process_item_def getattr_none_def
    by (cases "ReceivedTime msg") (simp_all add: to_naive_local_None)
  have pi: "process_item env outdir since until msg =
        (case to_naive_local env rt of
           None \<Rightarrow> NoReceivedTime
         | Some raw \<Rightarrow>
             (if raw < since \<or> raw > until then OutOfWindow raw
              else (case save_mail_and_attachments env msg outdir of
                      Inl e \<Rightarrow> ItemFailed e
                    | Inr (n, evs) \<Rightarrow> Saved (saved_record n) evs)))"
    using rt unfolding process_item_def getattr_none_def by simp
  obtain d where d: "to_naive_local env rt = Some d"
    using assms pi by (cases "to_naive_local env rt") simp_all
  have w: "\<not> (d < since \<or> until < d)"
    using assms pi d by (cases "d < since \<or> until < d") simp_all
  have pi': "(case save_mail_and_attachments env msg outdir of
                      Inl e \<Rightarrow> ItemFailed e
                    | Inr (n, evs) \<Rightarrow> Saved (saved_record n) evs) = Saved r evs"
    using assms pi d w by simp
  obtain n where sv: "save_mail_and_attachments env msg outdir = Inr (n, evs)"
    and r: "r = saved_record n"
    using pi' by (cases "save_mail_and_attachments env msg outdir") (auto split: prod.splits)
  from sv obtain received' where
    rc: "receipt_time env msg = Inr received'" "res_received n = received'"
    by (rule save_mail_InrE)
  have "received' = d" using rc(1) receipt_time_Has [OF rt, of env] d by simp
  then have "raw_received r = Some d" using r rc(2) by (simp add: saved_record_def)
  moreover have "since \<le> d" "d \<le> until" using w by (simp_all add: not_less)
  ultimately show ?thesis by blast
qed

lemma fetch_loop_result:
  "fetch_loop env outdir since until coll is saved
     = saved @ List.map_filter (saved_of env outdir since until coll) is"
proof (induction "is" arbitrary: saved)
  case Nil
  then show ?case by simp
next
  case (Cons i "is")
  show ?case
  proof (cases "Item coll i")
    case Raises
    then show ?thesis using Cons.IH [of saved] by (simp add: saved_of_def)
  next
    case (Returns msg)
    show ?thesis
    proof (cases "process_item env outdir since until msg")
      case (Saved r evs)
      then show ?thesis using Returns Cons.IH [of "saved @ [r]"] by (simp add: saved_of_def)
    qed (use Returns Cons.IH [of saved] in \<open>simp_all add: saved_of_def\<close>)
  qed
qed

lemma saved_of_in_window:
  assumes "saved_of env outdir since until coll i = Some r"
  shows "\<exists>d. raw_received r = Some d \<and> since \<le> d \<and> d \<le> until"
proof -
  from assms obtain msg evs where
    "process_item env outdir since until msg = Saved r evs"
    unfolding saved_of_def by (auto split: call.splits outcome.splits)
  then show ?thesis by (rule process_item_Saved)
qed

lemma ingest_in_window:
  assumes "ingest env outdir since until its = Inr recs"
  shows "(\<forall>r \<in> set recs. \<exists>d. raw_received r = Some d \<and> since \<le> d \<and> d \<le> until)
       \<and> (\<forall>c. its = Some c \<longrightarrow>
             (\<exists>count. items_count its = Inr count
                \<and> recs = List.map_filter (saved_of env outdir since until (members c)) [1..count]))"
proof (cases its)
  case None
  then show ?thesis using assms by (simp add: ingest_def bnd_def items_count_def)
next
  case (Some c)
  from assms Some obtain count where
    cnt: "items_count its = Inr count"
    and recs: "recs = fetch_loop env outdir since until (members c) [1..count] []"
    by (auto simp: ingest_def bnd_def split: sum.splits)
  have eq: "recs = List.map_filter (saved_of env outdir since until (members c)) [1..count]"
    using recs by (simp add: fetch_loop_result)
  have "\<exists>d. raw_received r = Some d \<and> since \<le> d \<and> d \<le> until" if "r \<in> set recs" for r
  proof -
    from that eq obtain i where "saved_of env outdir since until (members c) i = Some r"
      by (auto simp: List.map_filter_def)
    then show ?thesis by (rule saved_of_in_window)
  qed
  then show ?thesis using Some cnt eq by blast
qed

lemma fetch_saved_emails_in_window:
  assumes "fetch_saved_emails env outdir fld since until = Inr recs"
  shows "(\<forall>r \<in> set recs. \<exists>d. raw_received r = Some d \<and> since \<le> d \<and> d \<le> until)
       \<and> (\<exists>its calls. restrict_items_range env fld since until = Inr (its, calls)
             \<and> ingest env outdir since until its = Inr recs)"
proof -
  from assms obtain its calls where
    r: "restrict_items_range env fld since until = Inr (its, calls)"
    and i: "ingest env outdir since until its = Inr recs"
    by (auto simp: fetch_saved_emails_def bnd_def split: sum.splits prod.splits)
  from ingest_in_window [OF i] r i show ?thesis by blast
qed

lemma eval_fetch:
  "fetched (fetch_saved_emails utc_platform ''out'' policy_folder window_since window_until) =
   Some [(Some ''<m1@lender.example>'', Some (2025, 8, 5, 10, 0, 0, 0), Some (2025, 8, 5, 10, 0, 0, 0))]"
  by code_simp

lemma fetchedD:
  "fetched r = Some xs \<Longrightarrow>
   \<exists>recs. r = Inr recs \<and> map (\<lambda>r. (message_id r, raw_received r, received r)) recs = xs"
  unfolding fetched_def by (cases r) auto

text \<open>
  C2. In the fetch loop of \<^verbatim>\<open>main\<close> a message is discarded as out of window exactly
  when its receipt time, made naive local, is before \<^verbatim>\<open>since\<close> or after
  \<^verbatim>\<open>until\<close>; a message whose receipt time is inside the closed interval goes on to
  \<^verbatim>\<open>save_mail_and_attachments\<close>. The loop runs over whatever collection the resolver
  returned, so every record it produces, on every restriction path, has its receipt time inside
  the interval.
\<close>

theorem client_side_window_filter:
  "(process_item env outdir since until msg = OutOfWindow d \<longleftrightarrow>
      (\<exists>rt. ReceivedTime msg = Has rt \<and> to_naive_local env rt = Some d
            \<and> (d < since \<or> until < d)))
   \<and> (ReceivedTime msg = Has rt \<and> to_naive_local env rt = Some d \<and> since \<le> d \<and> d \<le> until \<longrightarrow>
        process_item env outdir since until msg
          = (case save_mail_and_attachments env msg outdir of
               Inl e \<Rightarrow> ItemFailed e
             | Inr (n, evs) \<Rightarrow> Saved (saved_record n) evs))
   \<and> (ingest env outdir since until its = Inr recs \<longrightarrow>
        (\<forall>r \<in> set recs. \<exists>d. raw_received r = Some d \<and> since \<le> d \<and> d \<le> until)
        \<and> (\<forall>c. its = Some c \<longrightarrow>
              (\<exists>count. items_count its = Inr count
                 \<and> recs = List.map_filter (saved_of env outdir since until (members c)) [1..count])))
   \<and> (fetch_saved_emails env outdir fld since until = Inr recs' \<longrightarrow>
        (\<forall>r \<in> set recs'. \<exists>d. raw_received r = Some d \<and> since \<le> d \<and> d \<le> until)
        \<and> (\<exists>its calls. restrict_items_range env fld since until = Inr (its, calls)
              \<and> ingest env outdir since until its = Inr recs'))"
  using process_item_out_of_window [of env outdir since until msg d]
        process_item_in_window [of msg rt env d since until outdir]
        ingest_in_window [of env outdir since until its recs]
        fetch_saved_emails_in_window [of env outdir fld since until recs']
  by blast

theorem client_side_window_filter_witness:
  "
     process_item utc_platform ''out'' window_since window_until late_message
       = OutOfWindow (2025, 8, 9, 8, 0, 0, 0)
   \<and> window_until < (2025, 8, 9, 8, 0, 0, 0)
   \<and> window_since \<le> (2025, 8, 5, 10, 0, 0, 0) \<and> (2025, 8, 5, 10, 0, 0, 0) \<le> window_until
   \<and> (\<exists>n evs. save_mail_and_attachments utc_platform plain_message ''out'' = Inr (n, evs)
         \<and> process_item utc_platform ''out'' window_since window_until plain_message
             = Saved (saved_record n) evs)
   \<and> (\<exists>recs. fetch_saved_emails utc_platform ''out'' policy_folder window_since window_until
                = Inr recs
         \<and> map (\<lambda>r. (message_id r, raw_received r, received r)) recs
             = [(Some ''<m1@lender.example>'', Some (2025, 8, 5, 10, 0, 0, 0),
                 Some (2025, 8, 5, 10, 0, 0, 0))]
         \<and> (\<exists>its. ingest utc_platform ''out'' window_since window_until its = Inr recs))"
proof -
  let ?env = "utc_platform"
  let ?late = "\<lparr>wall = (2025, 8, 9, 8, 0, 0, 0), tzinfo = Some 0\<rparr>"
  let ?early = "\<lparr>wall = (2025, 8, 5, 10, 0, 0, 0), tzinfo = Some 0\<rparr>"
  from fetchedD [OF eval_fetch] obtain recs where
    fm: "fetch_saved_emails ?env ''out'' policy_folder window_since window_until = Inr recs
       \<and> map (\<lambda>r. (message_id r, raw_received r, received r)) recs
             = [(Some ''<m1@lender.example>'', Some (2025, 8, 5, 10, 0, 0, 0),
                 Some (2025, 8, 5, 10, 0, 0, 0))]"
    by (rule exE)
  from fm have f: "fetch_saved_emails ?env ''out'' policy_folder window_since window_until = Inr recs"
    by (rule conjunct1)
  from fm have m: "map (\<lambda>r. (message_id r, raw_received r, received r)) recs
             = [(Some ''<m1@lender.example>'', Some (2025, 8, 5, 10, 0, 0, 0),
                 Some (2025, 8, 5, 10, 0, 0, 0))]"
    by (rule conjunct2)
  note t = client_side_window_filter
    [of ?env "''out''" window_since window_until late_message "(2025, 8, 9, 8, 0, 0, 0)"
        "Some ?early" "None" "[]" policy_folder recs]
  note t' = client_side_window_filter
    [of ?env "''out''" window_since window_until plain_message "(2025, 8, 5, 10, 0, 0, 0)"
        "Some ?early" "None" "[]" policy_folder recs]
  have l1: "ReceivedTime late_message = Has (Some ?late)"
    by (simp add: late_message_def plain_message_def)
  have l2: "to_naive_local ?env (Some ?late) = Some (2025, 8, 9, 8, 0, 0, 0)"
    by (rule eval_local_late)
  have l3: "window_until < (2025, 8, 9, 8, 0, 0, 0)"
    by (simp add: window_until_def)
  have p1: "ReceivedTime plain_message = Has (Some ?early)"
    by (simp add: plain_message_def)
  have p2: "to_naive_local ?env (Some ?early) = Some (2025, 8, 5, 10, 0, 0, 0)"
    by (rule eval_local_early)
  have p3: "window_since \<le> (2025, 8, 5, 10, 0, 0, 0)" "(2025, 8, 5, 10, 0, 0, 0) \<le> window_until"
    by (simp_all add: window_since_def window_until_def)
  have out: "process_item ?env ''out'' window_since window_until late_message
       = OutOfWindow (2025, 8, 9, 8, 0, 0, 0)"
    using t l1 l2 l3 by blast
  from returnedD [OF eval_plain_returned] obtain n evs where
    sv: "save_mail_and_attachments ?env plain_message ''out'' = Inr (n, evs)" by blast
  have inw: "process_item ?env ''out'' window_since window_until plain_message
             = Saved (saved_record n) evs"
    using t' p1 p2 p3 sv by simp
  from t f have ing: "\<exists>its. ingest ?env ''out'' window_since window_until its = Inr recs"
    by blast
  have A: "\<exists>n evs. save_mail_and_attachments ?env plain_message ''out'' = Inr (n, evs)
         \<and> process_item ?env ''out'' window_since window_until plain_message
             = Saved (saved_record n) evs"
    by (rule exI [of _ n], rule exI [of _ evs], rule conjI [OF sv inw])
  have B: "\<exists>recs. fetch_saved_emails ?env ''out'' policy_folder window_since window_until
                = Inr recs
         \<and> map (\<lambda>r. (message_id r, raw_received r, received r)) recs
             = [(Some ''<m1@lender.example>'', Some (2025, 8, 5, 10, 0, 0, 0),
                 Some (2025, 8, 5, 10, 0, 0, 0))]
         \<and> (\<exists>its. ingest ?env ''out'' window_since window_until its = Inr recs)"
    by (rule exI [of _ recs], rule conjI [OF f conjI [OF m ing]])
  show "process_item ?env ''out'' window_since window_until late_message
       = OutOfWindow (2025, 8, 9, 8, 0, 0, 0)
   \<and> window_until < (2025, 8, 9, 8, 0, 0, 0)
   \<and> window_since \<le> (2025, 8, 5, 10, 0, 0, 0) \<and> (2025, 8, 5, 10, 0, 0, 0) \<le> window_until
   \<and> (\<exists>n evs. save_mail_and_attachments ?env plain_message ''out'' = Inr (n, evs)
         \<and> process_item ?env ''out'' window_since window_until plain_message
             = Saved (saved_record n) evs)
   \<and> (\<exists>recs. fetch_saved_emails ?env ''out'' policy_folder window_since window_until
                = Inr recs
         \<and> map (\<lambda>r. (message_id r, raw_received r, received r)) recs
             = [(Some ''<m1@lender.example>'', Some (2025, 8, 5, 10, 0, 0, 0),
                 Some (2025, 8, 5, 10, 0, 0, 0))]
         \<and> (\<exists>its. ingest ?env ''out'' window_since window_until its = Inr recs))"
    by (rule conjI [OF out conjI [OF l3 conjI [OF p3(1) conjI [OF p3(2) conjI [OF A B]]]]])
qed


section \<open>Recovering JSON from the response\<close>

lemma find_from_none: "find_from i c s = - 1 \<longleftrightarrow> c \<notin> set s"
  by (induction s arbitrary: i) auto

lemma rfind_from_none: "rfind_from i c s = - 1 \<longleftrightarrow> c \<notin> set s"
  by (induction s arbitrary: i) auto

lemma find_char_none: "find_char s c = - 1 \<longleftrightarrow> c \<notin> set s"
  by (simp add: find_char_def find_from_none)

lemma rfind_char_none: "rfind_char s c = - 1 \<longleftrightarrow> c \<notin> set s"
  by (simp add: rfind_char_def rfind_from_none)

lemma find_from_lower: "find_from i c s = - 1 \<or> int i \<le> find_from i c s"
  by (induction s arbitrary: i) (auto, force)

lemma extract_first_json_block_eq:
  "extract_first_json_block env text
     = (case re_search_braces text of Some m \<Rightarrow> m | None \<Rightarrow> text)"
  unfolding extract_first_json_block_def re_search_braces_def Let_def
  by simp

lemma re_search_braces_none:
  "CHR ''{'' \<notin> set text \<or> CHR ''}'' \<notin> set text \<Longrightarrow> re_search_braces text = None"
proof -
  assume a: "CHR ''{'' \<notin> set text \<or> CHR ''}'' \<notin> set text"
  have s: "find_char text (CHR ''{'') = - 1 \<or> 0 \<le> find_char text (CHR ''{'')"
    using find_from_lower [of 0 "CHR ''{''" "text"] by (simp add: find_char_def)
  from a show ?thesis
  proof
    assume "CHR ''{'' \<notin> set text"
    then have "find_char text (CHR ''{'') = - 1" by (simp add: find_char_none)
    then show ?thesis by (simp add: re_search_braces_def)
  next
    assume "CHR ''}'' \<notin> set text"
    then have "rfind_char text (CHR ''}'') = - 1" by (simp add: rfind_char_none)
    then show ?thesis using s by (auto simp: re_search_braces_def Let_def)
  qed
qed

lemma eval_wrapped:
  "strip wrapped_response = wrapped_response
   \<and> \<not> json_document wrapped_response
   \<and> find_char wrapped_response (CHR ''{'') = 20
   \<and> rfind_char wrapped_response (CHR ''}'') = 43
   \<and> slice wrapped_response 20 44 = embedded_object
   \<and> json_document embedded_object"
  by code_simp

lemma eval_broken:
  "strip ''oops {not json} end'' = ''oops {not json} end''
   \<and> \<not> json_document ''oops {not json} end''
   \<and> \<not> json_document ''{not json}''
   \<and> re_search_braces ''oops {not json} end'' = Some ''{not json}''"
  by code_simp

lemma eval_broken_result:
  "extract_updates_json_text utc_platform ''oops {not json} end'' = ''{not json}''"
  by code_simp

text \<open>
  C8, as the code has it. The response is stripped. If the stripped text parses as JSON it is
  returned. Otherwise, if it has an opening brace with a closing brace after it, the slice from
  the first opening brace to the last closing brace is returned, whether or not the slice parses
  as JSON (the regular expression finds the same slice again); and if it has no such pair of
  braces, the stripped text is returned unchanged. Nothing raises.
\<close>

theorem json_recovery:
  "(json_loads_ok env (strip content) \<longrightarrow>
      extract_updates_json_text env content = strip content)
   \<and> (\<not> json_loads_ok env (strip content)
        \<and> find_char (strip content) (CHR ''{'') \<noteq> - 1
        \<and> rfind_char (strip content) (CHR ''}'') > find_char (strip content) (CHR ''{'') \<longrightarrow>
          extract_updates_json_text env content
            = slice (strip content) (find_char (strip content) (CHR ''{''))
                (rfind_char (strip content) (CHR ''}'') + 1)
          \<and> re_search_braces (strip content) = Some (extract_updates_json_text env content))
   \<and> (\<not> json_loads_ok env (strip content)
        \<and> \<not> (find_char (strip content) (CHR ''{'') \<noteq> - 1
              \<and> rfind_char (strip content) (CHR ''}'') > find_char (strip content) (CHR ''{'')) \<longrightarrow>
          extract_updates_json_text env content = strip content)
   \<and> (\<not> json_loads_ok env (strip content)
        \<and> (CHR ''{'' \<notin> set (strip content) \<or> CHR ''}'' \<notin> set (strip content)) \<longrightarrow>
          extract_updates_json_text env content = strip content)"
proof -
  have a: "json_loads_ok env (strip content) \<Longrightarrow>
      extract_updates_json_text env content = strip content"
    by (simp add: extract_updates_json_text_def Let_def)
  have b: "extract_updates_json_text env content
            = (case re_search_braces (strip content) of Some m \<Rightarrow> m | None \<Rightarrow> strip content)"
    if "\<not> json_loads_ok env (strip content)"
    using that by (simp add: extract_updates_json_text_def extract_first_json_block_eq Let_def)
  have c: "re_search_braces (strip content)
            = Some (slice (strip content) (find_char (strip content) (CHR ''{''))
                (rfind_char (strip content) (CHR ''}'') + 1))"
    if "find_char (strip content) (CHR ''{'') \<noteq> - 1"
      "rfind_char (strip content) (CHR ''}'') > find_char (strip content) (CHR ''{'')"
    using that by (simp add: re_search_braces_def Let_def)
  have d: "re_search_braces (strip content) = None"
    if "\<not> (find_char (strip content) (CHR ''{'') \<noteq> - 1
              \<and> rfind_char (strip content) (CHR ''}'') > find_char (strip content) (CHR ''{''))"
    using that by (auto simp: re_search_braces_def Let_def)
  have e: "re_search_braces (strip content) = None"
    if "CHR ''{'' \<notin> set (strip content) \<or> CHR ''}'' \<notin> set (strip content)"
    using that by (rule re_search_braces_none)
  show ?thesis using a b c d e by simp
qed

theorem json_recovery_witness:
  "
     \<not> json_loads_ok utc_platform (strip wrapped_response)
   \<and> find_char (strip wrapped_response) (CHR ''{'') \<noteq> - 1
   \<and> rfind_char (strip wrapped_response) (CHR ''}'') > find_char (strip wrapped_response) (CHR ''{'')
   \<and> extract_updates_json_text utc_platform wrapped_response = embedded_object
   \<and> json_loads_ok utc_platform embedded_object
   \<and> json_loads_ok utc_platform (strip embedded_object)
   \<and> extract_updates_json_text utc_platform embedded_object = strip embedded_object
   \<and> \<not> json_loads_ok utc_platform (strip ''no braces here'')
   \<and> CHR ''{'' \<notin> set (strip ''no braces here'')
   \<and> extract_updates_json_text utc_platform ''no braces here'' = strip ''no braces here''"
proof -
  let ?env = "utc_platform"
  have j: "json_loads_ok ?env = json_document" by (simp add: utc_platform_def)
  have w: "strip wrapped_response = wrapped_response"
      "\<not> json_document wrapped_response"
      "find_char wrapped_response (CHR ''{'') = 20"
      "rfind_char wrapped_response (CHR ''}'') = 43"
      "slice wrapped_response 20 44 = embedded_object"
      "json_document embedded_object"
    using eval_wrapped by blast+
  have o: "strip embedded_object = embedded_object" by code_simp
  have n: "\<not> json_document (strip ''no braces here'')" "CHR ''{'' \<notin> set (strip ''no braces here'')"
    by code_simp+
  have w1: "\<not> json_loads_ok ?env (strip wrapped_response)" using w j by simp
  have w2: "find_char (strip wrapped_response) (CHR ''{'') \<noteq> - 1" using w by simp
  have w3: "rfind_char (strip wrapped_response) (CHR ''}'') > find_char (strip wrapped_response) (CHR ''{'')"
    using w by simp
  have w4: "extract_updates_json_text ?env wrapped_response = embedded_object"
    using json_recovery [of ?env wrapped_response] w1 w2 w3 w by simp
  have o1: "json_loads_ok ?env embedded_object" "json_loads_ok ?env (strip embedded_object)"
    using w o j by simp_all
  have o2: "extract_updates_json_text ?env embedded_object = strip embedded_object"
    using json_recovery [of ?env embedded_object] o1 by blast
  have n1: "\<not> json_loads_ok ?env (strip ''no braces here'')" using n j by simp
  have n2: "extract_updates_json_text ?env ''no braces here'' = strip ''no braces here''"
    using json_recovery [of ?env "''no braces here''"] n1 n(2) by blast
  show "\<not> json_loads_ok ?env (strip wrapped_response)
   \<and> find_char (strip wrapped_response) (CHR ''{'') \<noteq> - 1
   \<and> rfind_char (strip wrapped_response) (CHR ''}'') > find_char (strip wrapped_response) (CHR ''{'')
   \<and> extract_updates_json_text ?env wrapped_response = embedded_object
   \<and> json_loads_ok ?env embedded_object
   \<and> json_loads_ok ?env (strip embedded_object)
   \<and> extract_updates_json_text ?env embedded_object = strip embedded_object
   \<and> \<not> json_loads_ok ?env (strip ''no braces here'')
   \<and> CHR ''{'' \<notin> set (strip ''no braces here'')
   \<and> extract_updates_json_text ?env ''no braces here'' = strip ''no braces here''"
    by (intro conjI w1 w2 w3 w4 o1 o2 n1 n(2) n2)
qed

text \<open>
  A response with a brace-delimited block that is not JSON, in a text that is not JSON: no
  JSON can be recovered, and the block is returned, not the text.
\<close>

theorem json_recovery_returns_block_counterexample:
  "\<not> json_document (strip ''oops {not json} end'')
   \<and> \<not> json_document ''{not json}''
   \<and> re_search_braces (strip ''oops {not json} end'') = Some ''{not json}''
   \<and> (json_loads_ok utc_platform = json_document
         \<and> extract_updates_json_text utc_platform ''oops {not json} end'' = ''{not json}'')
   \<and> ''{not json}'' \<noteq> strip ''oops {not json} end''
   \<and> ''{not json}'' \<noteq> ''oops {not json} end''"
proof -
  have j: "json_loads_ok utc_platform = json_document"
    by (simp add: utc_platform_def)
  have s: "strip ''oops {not json} end'' = ''oops {not json} end''" using eval_broken by blast
  have "\<not> json_document (strip ''oops {not json} end'')"
      "\<not> json_document ''{not json}''"
      "re_search_braces (strip ''oops {not json} end'') = Some ''{not json}''"
    using eval_broken by simp_all
  moreover have "''{not json}'' \<noteq> strip ''oops {not json} end''"
      "''{not json}'' \<noteq> ''oops {not json} end''"
    unfolding s by simp_all
  ultimately show ?thesis using j eval_broken_result by blast
qed


end
